theory Spec2Isabelle
  imports Main "HOL-Library.AList"
begin

section \<open>Python values\<close>

text \<open>
  The two source files (\<^verbatim>\<open>complete_panel_with_generation.py\<close> and
  \<^verbatim>\<open>single_file_panel.py\<close>) pass JSON-shaped Python values around: the reply of
  the vision service after \<^verbatim>\<open>json.loads\<close>, the dictionary built by
  \<^verbatim>\<open>parse_text_manually\<close>, the request body of the synthesizer. A Python float is
  kept as mantissa and binary exponent (\<open>PyFloat m e\<close> stands for \<open>m * 2 ^ e\<close>), plus the
  infinities and NaN that \<^verbatim>\<open>json.loads\<close> accepts.

  Text is a list of 8-bit characters: the model is exact for ASCII text, and the characters
  128 to 255 are classified as Python classifies the code points of that number.
\<close>

datatype pyfloat = PyFloat int int | PyInf bool | PyNaN

datatype json =
    JNull
  | JBool bool
  | JInt int
  | JFloat pyfloat
  | JStr string
  | JArr "json list"
  | JObj "(string \<times> json) list"

type_synonym dict = "(string \<times> json) list"

text \<open>Python's truth value of an object, as \<^verbatim>\<open>if x:\<close> and \<^verbatim>\<open>not x\<close> read it.\<close>

fun truthy :: "json \<Rightarrow> bool" where
  "truthy JNull = False"
| "truthy (JBool b) = b"
| "truthy (JInt i) = (i \<noteq> 0)"
| "truthy (JFloat f) = (case f of PyFloat m e \<Rightarrow> m \<noteq> 0 | PyInf s \<Rightarrow> True | PyNaN \<Rightarrow> True)"
| "truthy (JStr s) = (s \<noteq> [])"
| "truthy (JArr xs) = (xs \<noteq> [])"
| "truthy (JObj kvs) = (kvs \<noteq> [])"

text \<open>\<^verbatim>\<open>d.get(k)\<close> and \<^verbatim>\<open>d.get(k, default)\<close>; \<^verbatim>\<open>d[k] = v\<close> is \<open>AList.update k v d\<close>.\<close>

definition dict_get :: "dict \<Rightarrow> string \<Rightarrow> json" where
  "dict_get d k = (case map_of d k of None \<Rightarrow> JNull | Some v \<Rightarrow> v)"

definition dict_get_default :: "dict \<Rightarrow> string \<Rightarrow> json \<Rightarrow> json" where
  "dict_get_default d k dflt = (case map_of d k of None \<Rightarrow> dflt | Some v \<Rightarrow> v)"

definition dict_keys :: "dict \<Rightarrow> string set" where
  "dict_keys d = set (map fst d)"

text \<open>Exceptions are values: the class that the handlers discriminate on, and \<^verbatim>\<open>str(e)\<close>.\<close>

datatype exc_class =
  JSONDecodeError | TypeError | AttributeError | KeyError | IndexError | OtherException

datatype exc = Exc exc_class string

fun exc_str :: "exc \<Rightarrow> string" where
  "exc_str (Exc c msg) = msg"


section \<open>Characters and strings\<close>

definition ch_code :: "char \<Rightarrow> nat" where
  "ch_code c = of_char c"

definition in_range :: "char \<Rightarrow> char \<Rightarrow> char \<Rightarrow> bool" where
  "in_range lo hi c = (ch_code lo \<le> ch_code c \<and> ch_code c \<le> ch_code hi)"

text \<open>\<^verbatim>\<open>\d\<close>: the decimal digits; below 256 these are \<^verbatim>\<open>0\<close> to \<^verbatim>\<open>9\<close> only.\<close>

definition is_digit :: "char \<Rightarrow> bool" where
  "is_digit c = in_range CHR ''0'' CHR ''9'' c"

text \<open>\<^verbatim>\<open>\s\<close> and the characters removed by \<^verbatim>\<open>str.strip()\<close>: tab to carriage return, the
  separators 28 to 31, the space, NEL (133) and the no-break space (160).\<close>

definition is_space :: "char \<Rightarrow> bool" where
  "is_space c = (let n = ch_code c in
     (9 \<le> n \<and> n \<le> 13) \<or> (28 \<le> n \<and> n \<le> 32) \<or> n = 133 \<or> n = 160)"

definition is_ascii_upper :: "char \<Rightarrow> bool" where
  "is_ascii_upper c = in_range CHR ''A'' CHR ''Z'' c"

definition is_ascii_lower :: "char \<Rightarrow> bool" where
  "is_ascii_lower c = in_range CHR ''a'' CHR ''z'' c"

text \<open>The upper-case letters of Latin-1 are 192 to 222 without the multiplication sign
  (215); the lower-case ones with an upper-case partner below 256 are 224 to 254 without the
  division sign (247).\<close>

definition is_latin_upper :: "char \<Rightarrow> bool" where
  "is_latin_upper c = (let n = ch_code c in 192 \<le> n \<and> n \<le> 222 \<and> n \<noteq> 215)"

definition is_latin_lower :: "char \<Rightarrow> bool" where
  "is_latin_lower c = (let n = ch_code c in 224 \<le> n \<and> n \<le> 254 \<and> n \<noteq> 247)"

definition lower_char :: "char \<Rightarrow> char" where
  "lower_char c = (if is_ascii_upper c \<or> is_latin_upper c then char_of (ch_code c + 32) else c)"

text \<open>The micro sign, the sharp s and y with diaeresis have no upper-case partner below
  256; they are left as they are.\<close>

definition upper_char :: "char \<Rightarrow> char" where
  "upper_char c = (if is_ascii_lower c \<or> is_latin_lower c then char_of (ch_code c - 32) else c)"

text \<open>\<^verbatim>\<open>\w\<close>: alphanumeric characters and the underscore.\<close>

definition is_word :: "char \<Rightarrow> bool" where
  "is_word c = (let n = ch_code c in
     is_digit c \<or> is_ascii_upper c \<or> is_ascii_lower c \<or> c = CHR ''_'' \<or>
     n = 170 \<or> n = 178 \<or> n = 179 \<or> n = 181 \<or> n = 185 \<or> n = 186 \<or>
     (188 \<le> n \<and> n \<le> 190) \<or> (192 \<le> n \<and> n \<noteq> 215 \<and> n \<noteq> 247))"

definition py_lower :: "string \<Rightarrow> string" where
  "py_lower s = map lower_char s"

definition py_strip :: "string \<Rightarrow> string" where
  "py_strip s = rev (dropWhile is_space (rev (dropWhile is_space s)))"

text \<open>\<^verbatim>\<open>str.title()\<close>: a cased character is put in title case after an uncased one (or
  at the start) and lower-cased after a cased one. The title case of the sharp s (223) is
  \<^verbatim>\<open>Ss\<close>; that of the micro sign (181) and of y with diaeresis (255) is a character above
  255, which an 8-bit string cannot hold: the result is \<open>None\<close> then.\<close>

definition is_cased :: "char \<Rightarrow> bool" where
  "is_cased c = (let n = ch_code c in
     is_ascii_upper c \<or> is_ascii_lower c \<or> n = 170 \<or> n = 181 \<or> n = 186 \<or>
     (192 \<le> n \<and> n \<noteq> 215 \<and> n \<noteq> 247))"

definition title_char :: "char \<Rightarrow> string option" where
  "title_char c =
     (if ch_code c = 223 then Some ''Ss''
      else if ch_code c = 181 \<or> ch_code c = 255 then None
      else Some [upper_char c])"

fun title_from :: "bool \<Rightarrow> string \<Rightarrow> string option" where
  "title_from prev [] = Some []"
| "title_from prev (c # cs) =
     (if is_cased c then
        (case (if prev then Some [lower_char c] else title_char c) of
           None \<Rightarrow> None
         | Some t \<Rightarrow> map_option (\<lambda>rest. t @ rest) (title_from True cs))
      else map_option (\<lambda>rest. c # rest) (title_from False cs))"

definition py_title :: "string \<Rightarrow> string option" where
  "py_title s = title_from False s"

text \<open>\<^verbatim>\<open>sub in s\<close> on strings.\<close>

fun starts_with :: "string \<Rightarrow> string \<Rightarrow> bool" where
  "starts_with [] s = True"
| "starts_with (p # ps) [] = False"
| "starts_with (p # ps) (c # cs) = (p = c \<and> starts_with ps cs)"

fun contains :: "string \<Rightarrow> string \<Rightarrow> bool" where
  "contains sub [] = (sub = [])"
| "contains sub (c # cs) = (starts_with sub (c # cs) \<or> contains sub cs)"

text \<open>\<^verbatim>\<open>text.split('\n')\<close>: always at least one piece.\<close>

fun split_nl :: "string \<Rightarrow> string list" where
  "split_nl [] = [[]]"
| "split_nl (c # cs) =
     (if c = CHR 0x0A then [] # split_nl cs
      else (case split_nl cs of [] \<Rightarrow> [[c]] | l # ls \<Rightarrow> (c # l) # ls))"


section \<open>Regular expressions\<close>

text \<open>
  Every pattern of the two files is a sequence of single-character items: a character set
  matched once, or a character set under a greedy quantifier, with the parentheses of at
  most one capturing group in between. \<open>Rep cs lo hi\<close> is \<^verbatim>\<open>cs{lo,hi}\<close> (\<open>hi = None\<close>:
  no upper bound), so \<^verbatim>\<open>?\<close> is \<open>Rep cs 0 (Some 1)\<close>, \<^verbatim>\<open>*\<close> is \<open>Rep cs 0 None\<close> and
  \<^verbatim>\<open>+\<close> is \<open>Rep cs 1 None\<close>.

  \<open>CNonLatin n\<close> is a literal character whose code point \<open>n\<close> is 256 or more (the rupee
  sign of the third amount pattern): no 8-bit character matches it.
\<close>

datatype cset =
    CChar char
  | CDigit
  | CWord
  | CSpace
  | CAny
  | CRange char char
  | CUnion "cset list"
  | CNonLatin nat

datatype item = Atom cset | Rep cset nat "nat option" | GOpen | GClose

type_synonym regex = "item list"

text \<open>Membership; the flag is \<^verbatim>\<open>re.IGNORECASE\<close>. A literal then matches a character with the
  same lower case, and a range matches a character that lies in it itself or through its
  lower-case or upper-case form.\<close>

fun cs_mem :: "bool \<Rightarrow> cset \<Rightarrow> char \<Rightarrow> bool" where
  "cs_mem ic (CChar l) c = (if ic then lower_char c = lower_char l else c = l)"
| "cs_mem ic CDigit c = is_digit c"
| "cs_mem ic CWord c = is_word c"
| "cs_mem ic CSpace c = is_space c"
| "cs_mem ic CAny c = True"
| "cs_mem ic (CRange lo hi) c =
     (in_range lo hi c \<or> (ic \<and> (in_range lo hi (lower_char c) \<or> in_range lo hi (upper_char c))))"
| "cs_mem ic (CUnion cs) c = (\<exists>x \<in> set cs. cs_mem ic x c)"
| "cs_mem ic (CNonLatin n) c = False"

definition lit :: "string \<Rightarrow> regex" where
  "lit s = map (\<lambda>c. Atom (CChar c)) s"

fun first_some :: "'a option list \<Rightarrow> 'a option" where
  "first_some [] = None"
| "first_some (x # xs) = (case x of Some y \<Rightarrow> Some y | None \<Rightarrow> first_some xs)"

text \<open>The number of leading characters of \<open>s\<close> in the set, and the repetition counts a greedy
  quantifier tries, the largest first.\<close>

definition run_len :: "bool \<Rightarrow> cset \<Rightarrow> string \<Rightarrow> nat" where
  "run_len ic cs s = length (takeWhile (cs_mem ic cs) s)"

definition counts :: "nat \<Rightarrow> nat option \<Rightarrow> nat \<Rightarrow> nat list" where
  "counts lo hi n = rev [lo ..< Suc (case hi of None \<Rightarrow> n | Some h \<Rightarrow> min h n)]"

text \<open>
  The backtracking matcher, anchored at the start of \<open>s\<close>. \<open>g0\<close> is the rest of the text where
  the group was opened, \<open>g\<close> the text of group 1 (read only from patterns that have the
  group, in which it takes part in every match). The result is the rest of the text after
  the match, and group 1.
\<close>

fun rmatch :: "bool \<Rightarrow> regex \<Rightarrow> string \<Rightarrow> string \<Rightarrow> string \<Rightarrow> (string \<times> string) option" where
  "rmatch ic [] s g0 g = Some (s, g)"
| "rmatch ic (Atom cs # r) s g0 g =
     (case s of [] \<Rightarrow> None
      | c # s' \<Rightarrow> if cs_mem ic cs c then rmatch ic r s' g0 g else None)"
| "rmatch ic (Rep cs lo hi # r) s g0 g =
     first_some (map (\<lambda>k. rmatch ic r (drop k s) g0 g) (counts lo hi (run_len ic cs s)))"
| "rmatch ic (GOpen # r) s g0 g = rmatch ic r s s g"
| "rmatch ic (GClose # r) s g0 g = rmatch ic r s g0 (take (length g0 - length s) g0)"

text \<open>A match object: \<^verbatim>\<open>group()\<close>, \<^verbatim>\<open>group(1)\<close>, and the text after the match.\<close>

record rmatch_obj =
  m_text :: string
  m_group1 :: string
  m_rest :: string

definition match_at :: "bool \<Rightarrow> regex \<Rightarrow> string \<Rightarrow> rmatch_obj option" where
  "match_at ic re s =
     (case rmatch ic re s s [] of
        None \<Rightarrow> None
      | Some (rest, g) \<Rightarrow>
          Some \<lparr>m_text = take (length s - length rest) s, m_group1 = g, m_rest = rest\<rparr>)"

text \<open>\<^verbatim>\<open>re.search\<close>: the match at the leftmost position that has one.\<close>

fun re_search :: "bool \<Rightarrow> regex \<Rightarrow> string \<Rightarrow> rmatch_obj option" where
  "re_search ic re [] = match_at ic re []"
| "re_search ic re (c # cs) =
     (case match_at ic re (c # cs) of
        Some m \<Rightarrow> Some m
      | None \<Rightarrow> re_search ic re cs)"

text \<open>\<^verbatim>\<open>re.findall\<close> for a pattern with one group: group 1 of the successive
  non-overlapping matches. After a match that is not empty the next search starts where the
  match ended; after an empty match it starts one character further. The tests on the
  lengths always hold (the rest of a match is a suffix of the text searched); they make the
  recursion terminate.\<close>

function re_findall :: "bool \<Rightarrow> regex \<Rightarrow> string \<Rightarrow> string list" where
  "re_findall ic re s =
     (case re_search ic re s of
        None \<Rightarrow> []
      | Some m \<Rightarrow>
          m_group1 m #
          (if m_text m \<noteq> [] then
             (if length (m_rest m) < length s then re_findall ic re (m_rest m) else [])
           else
             (case m_rest m of
                [] \<Rightarrow> []
              | c # cs \<Rightarrow> if length cs < length s then re_findall ic re cs else [])))"
  by pat_completeness auto
termination
  by (relation "measure (\<lambda>(ic, re, s). length s)") auto


section \<open>The Field Parser\<close>

text \<open>The character sets and the numeric capture shared by the patterns.\<close>

definition colon_space :: cset where
  "colon_space = CUnion [CChar CHR '':'', CSpace]"

definition alnum :: cset where
  "alnum = CUnion [CRange CHR ''A'' CHR ''Z'', CRange CHR ''a'' CHR ''z'', CRange CHR ''0'' CHR ''9'']"

definition digit_comma :: cset where
  "digit_comma = CUnion [CRange CHR ''0'' CHR ''9'', CChar CHR '','']"

text \<open>\<^verbatim>\<open>([A-Za-z0-9]+)\<close> and \<^verbatim>\<open>([0-9,]+\.?\d*)\<close>.\<close>

definition alnum_group :: regex where
  "alnum_group = [GOpen, Rep alnum 1 None, GClose]"

definition number_group :: regex where
  "number_group =
     [GOpen, Rep digit_comma 1 None, Rep (CChar CHR ''.'') 0 (Some 1), Rep CDigit 0 None, GClose]"

text \<open>\<^verbatim>\<open>Rs\.?\s*\<close>.\<close>

definition rs_marker :: regex where
  "rs_marker = lit ''Rs'' @ [Rep (CChar CHR ''.'') 0 (Some 1), Rep CSpace 0 None]"

definition tid_patterns :: "regex list" where
  "tid_patterns =
     [lit ''TID'' @ [Rep colon_space 0 None] @ alnum_group,
      lit ''Transaction'' @ [Rep CSpace 1 None] @ lit ''ID'' @ [Rep colon_space 0 None] @ alnum_group,
      lit ''Ref'' @ [Rep colon_space 0 None] @ alnum_group,
      lit ''Reference'' @ [Rep colon_space 0 None] @ alnum_group]"

definition amount_patterns :: "regex list" where
  "amount_patterns =
     [rs_marker @ number_group,
      lit ''PKR'' @ [Rep CSpace 0 None] @ number_group,
      [Atom (CNonLatin 8360), Rep CSpace 0 None] @ number_group]"

text \<open>\<^verbatim>\<open>\w+\s+\d{1,2},\s+\d{4}\s+at\s+\d{1,2}:\d{2}\<close> and
  \<^verbatim>\<open>\d{1,2}/\d{1,2}/\d{4}\s+\d{1,2}:\d{2}\<close>.\<close>

definition long_date :: regex where
  "long_date =
     [Rep CWord 1 None, Rep CSpace 1 None, Rep CDigit 1 (Some 2), Atom (CChar CHR '',''),
      Rep CSpace 1 None, Rep CDigit 4 (Some 4), Rep CSpace 1 None] @ lit ''at'' @
     [Rep CSpace 1 None, Rep CDigit 1 (Some 2), Atom (CChar CHR '':''), Rep CDigit 2 (Some 2)]"

definition numeric_date :: regex where
  "numeric_date =
     [Rep CDigit 1 (Some 2), Atom (CChar CHR ''/''), Rep CDigit 1 (Some 2), Atom (CChar CHR ''/''),
      Rep CDigit 4 (Some 4), Rep CSpace 1 None, Rep CDigit 1 (Some 2), Atom (CChar CHR '':''),
      Rep CDigit 2 (Some 2)]"

definition date_patterns :: "regex list" where
  "date_patterns =
     [[GOpen] @ long_date @ [GClose],
      lit ''On'' @ [Rep CSpace 1 None, GOpen] @ long_date @ [GClose],
      [GOpen] @ numeric_date @ [GClose]]"

definition fee_patterns :: "regex list" where
  "fee_patterns =
     [lit ''Fee'' @ [Rep colon_space 0 None] @ rs_marker @ number_group,
      lit ''Charges'' @ [Rep colon_space 0 None] @ rs_marker @ number_group]"

text \<open>The dictionary \<^verbatim>\<open>patterns\<close>, in its insertion order.\<close>

definition patterns :: "(string \<times> regex list) list" where
  "patterns =
     [(''transaction_id'', tid_patterns),
      (''amount'', amount_patterns),
      (''date'', date_patterns),
      (''fee'', fee_patterns)]"

text \<open>The inner loop over one field's patterns: the first pattern that matches anywhere in
  the text decides (\<^verbatim>\<open>break\<close>), by its group 1.\<close>

fun first_match :: "regex list \<Rightarrow> string \<Rightarrow> string option" where
  "first_match [] text = None"
| "first_match (p # ps) text =
     (case re_search True p text of
        Some m \<Rightarrow> Some (m_group1 m)
      | None \<Rightarrow> first_match ps text)"

fun apply_patterns :: "(string \<times> regex list) list \<Rightarrow> string \<Rightarrow> dict \<Rightarrow> dict" where
  "apply_patterns [] text data = data"
| "apply_patterns ((field, field_patterns) # rest) text data =
     apply_patterns rest text
       (case first_match field_patterns text of
          None \<Rightarrow> data
        | Some g \<Rightarrow>
            if field \<in> set [''amount'', ''fee'']
            then AList.update field (JStr (''Rs. '' @ g)) data
            else AList.update field (JStr g) data)"

text \<open>The phone patterns \<^verbatim>\<open>(\+92\d{10})\<close>, \<^verbatim>\<open>(03\d{9})\<close> and \<^verbatim>\<open>(\d{11})\<close>, searched
  without \<^verbatim>\<open>re.IGNORECASE\<close>.\<close>

definition phone_patterns :: "regex list" where
  "phone_patterns =
     [[GOpen] @ lit ''+92'' @ [Rep CDigit 10 (Some 10), GClose],
      [GOpen] @ lit ''03'' @ [Rep CDigit 9 (Some 9), GClose],
      [GOpen, Rep CDigit 11 (Some 11), GClose]]"

text \<open>The set \<^verbatim>\<open>phone_numbers\<close> is kept as a list without duplicates. Python fixes no
  order for \<^verbatim>\<open>list(phone_numbers)\<close>; only the elements and their number are meaningful.\<close>

definition collect_phones :: "string \<Rightarrow> string list" where
  "collect_phones text = remdups (concat (map (\<lambda>p. re_findall False p text) phone_patterns))"

text \<open>\<^verbatim>\<open>\d{10,}\<close>, the test that keeps a phone number from being taken as a name.\<close>

definition long_digit_run :: regex where
  "long_digit_run = [Rep CDigit 10 None]"

text \<open>One round of the loop over \<^verbatim>\<open>enumerate(lines)\<close>: \<open>line\<close> is \<^verbatim>\<open>lines[i]\<close> and
  \<open>rest\<close> the lines after it, so that \<^verbatim>\<open>i + 1 < len(lines)\<close> is \<open>rest \<noteq> []\<close> and
  \<^verbatim>\<open>lines[i + 1]\<close> its head.\<close>

definition sender_step :: "string \<Rightarrow> string list \<Rightarrow> dict \<Rightarrow> dict" where
  "sender_step line_lower rest data =
     (case rest of
        [] \<Rightarrow> data
      | nxt # _ \<Rightarrow>
          if contains ''from'' line_lower then
            (let potential_sender = py_strip nxt in
             if re_search False long_digit_run potential_sender = None
             then AList.update ''sender'' (JStr potential_sender) data else data)
          else data)"

definition receiver_step :: "string \<Rightarrow> string list \<Rightarrow> dict \<Rightarrow> dict" where
  "receiver_step line_lower rest data =
     (case rest of
        [] \<Rightarrow> data
      | nxt # _ \<Rightarrow>
          if contains ''to'' line_lower \<and> \<not> contains ''total'' line_lower then
            (let potential_receiver = py_strip nxt in
             if re_search False long_digit_run potential_receiver = None
             then AList.update ''receiver'' (JStr potential_receiver) data else data)
          else data)"

definition status_step :: "string \<Rightarrow> dict \<Rightarrow> dict" where
  "status_step line_lower data =
     (if contains ''successful'' line_lower then AList.update ''status'' (JStr ''Successful'') data
      else if contains ''failed'' line_lower then AList.update ''status'' (JStr ''Failed'') data
      else if contains ''pending'' line_lower then AList.update ''status'' (JStr ''Pending'') data
      else data)"

definition line_step :: "string \<Rightarrow> string list \<Rightarrow> dict \<Rightarrow> dict" where
  "line_step line rest data =
     (let line_lower = py_lower line in
      status_step line_lower (receiver_step line_lower rest (sender_step line_lower rest data)))"

fun scan_lines :: "string list \<Rightarrow> dict \<Rightarrow> dict" where
  "scan_lines [] data = data"
| "scan_lines (line # rest) data = scan_lines rest (line_step line rest data)"

text \<open>The names of \<^verbatim>\<open>methods\<close> are ASCII, so \<^verbatim>\<open>method.title()\<close> is an 8-bit string for
  each of them; the branch for \<open>None\<close> in \<open>detect_method\<close> is not taken for these names.\<close>

definition methods :: "string list" where
  "methods = [''jazzcash'', ''easypaisa'', ''ubl'', ''hbl'', ''bank'', ''wallet'']"

fun detect_method :: "string list \<Rightarrow> string \<Rightarrow> dict \<Rightarrow> dict" where
  "detect_method [] text data = data"
| "detect_method (method # ms) text data =
     (if contains method (py_lower text)
      then (case py_title method of
              Some title \<Rightarrow> AList.update ''payment_method'' (JStr title) data
            | None \<Rightarrow> data)
      else detect_method ms text data)"

definition initial_data :: "string \<Rightarrow> dict" where
  "initial_data text =
     [(''transaction_id'', JNull), (''amount'', JNull), (''date'', JNull), (''sender'', JNull),
      (''receiver'', JNull), (''fee'', JNull), (''payment_method'', JNull), (''status'', JNull),
      (''phone_numbers'', JArr []), (''reference'', JNull), (''bank_info'', JNull),
      (''location'', JNull), (''all_text'', JStr text)]"

definition parse_text_manually :: "string \<Rightarrow> dict" where
  "parse_text_manually text =
     (let data = initial_data text;
          data = apply_patterns patterns text data;
          data = AList.update ''phone_numbers'' (JArr (map JStr (collect_phones text))) data;
          data = scan_lines (split_nl text) data
      in detect_method methods text data)"



section \<open>The libraries behind the pipeline\<close>

text \<open>
  Pillow, OpenCV, Tesseract, the Gemini client and \<^verbatim>\<open>json.loads\<close> are not part of the
  repository. What they return for a given argument is a parameter of the model; each call can
  raise. \<open>'img\<close> is a PIL image, \<open>'arr\<close> an OpenCV array.

  \<^item> \<open>image_open\<close>: \<^verbatim>\<open>Image.open(io.BytesIO(image_data))\<close>;
  \<^item> \<open>image_mode\<close>, \<open>convert_L\<close>: \<^verbatim>\<open>pil_image.mode\<close>, \<^verbatim>\<open>pil_image.convert('L')\<close>;
  \<^item> \<open>contrast\<close>, \<open>sharpness\<close>: \<^verbatim>\<open>ImageEnhance.Contrast(img).enhance(1.5)\<close> and
    \<^verbatim>\<open>ImageEnhance.Sharpness(img).enhance(2.0)\<close>;
  \<^item> \<open>imdecode\<close>: \<^verbatim>\<open>cv2.imdecode(np.frombuffer(image_data, np.uint8), cv2.IMREAD_COLOR)\<close>,
    which gives \<^verbatim>\<open>None\<close> for data it cannot decode;
  \<^item> \<open>cvt_gray\<close>, \<open>denoise\<close>, \<open>threshold_otsu\<close>, \<open>fromarray\<close>: the OpenCV steps and
    \<^verbatim>\<open>Image.fromarray\<close>;
  \<^item> \<open>image_to_string\<close>: \<^verbatim>\<open>pytesseract.image_to_string(image, config=config)\<close>;
  \<^item> \<open>new_model\<close>: \<^verbatim>\<open>genai.GenerativeModel('gemini-pro-vision')\<close>;
  \<^item> \<open>generate_content\<close>: \<^verbatim>\<open>model.generate_content([prompt, pil_image])\<close>, giving the
    response by what its property \<^verbatim>\<open>response.text\<close> yields (reading it can raise);
  \<^item> \<open>json_loads\<close>: \<^verbatim>\<open>json.loads\<close> on a text that starts with a brace: a dictionary, or
    an exception;
  \<^item> \<open>gemini_available\<close>: the module's global \<^verbatim>\<open>GEMINI_AVAILABLE\<close>.
\<close>

type_synonym bytes = "char list"

record ('img, 'arr) world =
  gemini_available :: bool
  image_open :: "bytes \<Rightarrow> exc + 'img"
  image_mode :: "'img \<Rightarrow> string"
  convert_L :: "'img \<Rightarrow> exc + 'img"
  contrast :: "'img \<Rightarrow> exc + 'img"
  sharpness :: "'img \<Rightarrow> exc + 'img"
  imdecode :: "bytes \<Rightarrow> exc + 'arr option"
  cvt_gray :: "'arr \<Rightarrow> exc + 'arr"
  denoise :: "'arr \<Rightarrow> exc + 'arr"
  threshold_otsu :: "'arr \<Rightarrow> exc + 'arr"
  fromarray :: "'arr \<Rightarrow> exc + 'img"
  image_to_string :: "'img \<Rightarrow> string \<Rightarrow> exc + string"
  new_model :: "exc + unit"
  generate_content :: "'img \<Rightarrow> exc + (exc + string)"
  json_loads :: "string \<Rightarrow> exc + dict"

text \<open>Sequencing of calls that can raise.\<close>

definition and_then :: "exc + 'a \<Rightarrow> ('a \<Rightarrow> exc + 'b) \<Rightarrow> exc + 'b" where
  "and_then m f = (case m of Inl e \<Rightarrow> Inl e | Inr x \<Rightarrow> f x)"


section \<open>The Image Preprocessor\<close>

text \<open>\<^verbatim>\<open>preprocess_image_for_ocr\<close> of \<^verbatim>\<open>complete_panel_with_generation.py\<close>. The handler of
  its \<^verbatim>\<open>try\<close> opens the image a second time; what that call raises leaves the function.\<close>

definition preprocess_try :: "('img, 'arr) world \<Rightarrow> bytes \<Rightarrow> exc + 'img" where
  "preprocess_try w image_data =
     and_then (image_open w image_data) (\<lambda>pil_image.
     and_then (if image_mode w pil_image \<noteq> ''L'' then convert_L w pil_image else Inr pil_image)
       (\<lambda>pil_image.
     and_then (contrast w pil_image) (\<lambda>pil_image.
     sharpness w pil_image)))"

definition preprocess_image_for_ocr :: "('img, 'arr) world \<Rightarrow> bytes \<Rightarrow> exc + 'img" where
  "preprocess_image_for_ocr w image_data =
     (case preprocess_try w image_data of
        Inr pil_image \<Rightarrow> Inr pil_image
      | Inl e \<Rightarrow> image_open w image_data)"

text \<open>\<^verbatim>\<open>preprocess_image_for_ocr\<close> of \<^verbatim>\<open>single_file_panel.py\<close>: it returns \<^verbatim>\<open>None\<close> when
  OpenCV cannot decode the data, and has the same handler.\<close>

definition sfp_preprocess_try :: "('img, 'arr) world \<Rightarrow> bytes \<Rightarrow> exc + 'img option" where
  "sfp_preprocess_try w image_data =
     and_then (imdecode w image_data) (\<lambda>img.
       case img of
         None \<Rightarrow> Inr None
       | Some img \<Rightarrow>
           and_then (cvt_gray w img) (\<lambda>gray.
           and_then (denoise w gray) (\<lambda>denoised.
           and_then (threshold_otsu w denoised) (\<lambda>thresh.
           and_then (fromarray w thresh) (\<lambda>pil_image. Inr (Some pil_image))))))"

definition sfp_preprocess_image_for_ocr :: "('img, 'arr) world \<Rightarrow> bytes \<Rightarrow> exc + 'img option" where
  "sfp_preprocess_image_for_ocr w image_data =
     (case sfp_preprocess_try w image_data of
        Inr r \<Rightarrow> Inr r
      | Inl e \<Rightarrow> and_then (image_open w image_data) (\<lambda>pil_image. Inr (Some pil_image)))"


section \<open>The Text Recognition Adapter\<close>

definition configs :: "string list" where
  "configs =
     [''--psm 6 -c tessedit_char_whitelist=0123456789ABCDEFGHIJKLMNOPQRSTUVWXYZabcdefghijklmnopqrstuvwxyz:.,/-+ '',
      ''--psm 4'',
      ''--psm 3'']"

definition sfp_configs :: "string list" where
  "sfp_configs = [''--psm 6'', ''--psm 4'', ''--psm 3'']"

text \<open>The loop over the configurations; a configuration that raises is skipped.\<close>

fun best_of :: "('img, 'arr) world \<Rightarrow> 'img \<Rightarrow> string list \<Rightarrow> string \<Rightarrow> string" where
  "best_of w processed_image [] best_text = best_text"
| "best_of w processed_image (config # cs) best_text =
     best_of w processed_image cs
       (case image_to_string w processed_image config of
          Inl e \<Rightarrow> best_text
        | Inr text \<Rightarrow>
            if length (py_strip text) > length (py_strip best_text) then text else best_text)"

definition extract_with_tesseract :: "('img, 'arr) world \<Rightarrow> bytes \<Rightarrow> string" where
  "extract_with_tesseract w image_data =
     (case preprocess_image_for_ocr w image_data of
        Inl e \<Rightarrow> []
      | Inr processed_image \<Rightarrow> best_of w processed_image configs [])"

definition sfp_extract_with_tesseract :: "('img, 'arr) world \<Rightarrow> bytes \<Rightarrow> string" where
  "sfp_extract_with_tesseract w image_data =
     (case sfp_preprocess_image_for_ocr w image_data of
        Inl e \<Rightarrow> []
      | Inr None \<Rightarrow> []
      | Inr (Some processed_image) \<Rightarrow> best_of w processed_image sfp_configs [])"


section \<open>The Vision Extraction Adapter\<close>

text \<open>\<^verbatim>\<open>\{.*\}\<close> under \<^verbatim>\<open>re.DOTALL\<close>.\<close>

definition json_span :: regex where
  "json_span = [Atom (CChar CHR ''{''), Rep CAny 0 None, Atom (CChar CHR ''}'')]"

definition exc_class_of :: "exc \<Rightarrow> exc_class" where
  "exc_class_of e = (case e of Exc c msg \<Rightarrow> c)"

text \<open>The inner \<^verbatim>\<open>try\<close>, which handles \<^verbatim>\<open>json.JSONDecodeError\<close> only.\<close>

definition gemini_parse_try :: "('img, 'arr) world \<Rightarrow> exc + string \<Rightarrow> exc + dict" where
  "gemini_parse_try w response =
     and_then response (\<lambda>text.
       let response_text = py_strip text in
       case re_search False json_span response_text of
         Some json_match \<Rightarrow> json_loads w (m_text json_match)
       | None \<Rightarrow> Inr [(''all_text'', JStr response_text)])"

definition gemini_parse :: "('img, 'arr) world \<Rightarrow> exc + string \<Rightarrow> exc + dict" where
  "gemini_parse w response =
     (case gemini_parse_try w response of
        Inr extracted_data \<Rightarrow> Inr extracted_data
      | Inl e \<Rightarrow>
          if exc_class_of e = JSONDecodeError
          then and_then response (\<lambda>text. Inr [(''all_text'', JStr text)])
          else Inl e)"

text \<open>The body of the outer \<^verbatim>\<open>try\<close>, and the function with its handler, which turns every
  exception into a dictionary with the key \<^verbatim>\<open>error\<close>.\<close>

definition gemini_try :: "('img, 'arr) world \<Rightarrow> bytes \<Rightarrow> string \<Rightarrow> exc + dict" where
  "gemini_try w image_data mime_type =
     (if \<not> gemini_available w then Inr []
      else
        and_then (new_model w) (\<lambda>model.
        and_then (image_open w image_data) (\<lambda>pil_image.
        and_then (generate_content w pil_image) (\<lambda>response.
        gemini_parse w response))))"

definition extract_with_gemini :: "('img, 'arr) world \<Rightarrow> bytes \<Rightarrow> string \<Rightarrow> dict" where
  "extract_with_gemini w image_data mime_type =
     (case gemini_try w image_data mime_type of
        Inr extracted_data \<Rightarrow> extracted_data
      | Inl e \<Rightarrow> [(''error'', JStr (exc_str e))])"


section \<open>The Extraction Orchestrator\<close>

text \<open>
  \<^verbatim>\<open>upload_file\<close>. Of the JSON reply the model keeps \<^verbatim>\<open>extracted_data\<close>,
  \<^verbatim>\<open>extraction_method\<close> and \<^verbatim>\<open>gemini_available\<close>; the file name, the time stamp and the
  image URL do not depend on the extraction. The two files differ in the text recognition
  they call, which is the first argument of \<open>upload_with\<close>.
\<close>

definition allowed_extensions :: "string list" where
  "allowed_extensions = [''png'', ''jpg'', ''jpeg'', ''gif'', ''bmp'', ''webp'']"

definition allowed_file :: "string \<Rightarrow> bool" where
  "allowed_file filename =
     (CHR ''.'' \<in> set filename \<and>
      py_lower (rev (takeWhile (\<lambda>c. c \<noteq> CHR ''.'') (rev filename))) \<in> set allowed_extensions)"

record file_storage =
  filename :: string
  content_type :: string
  file_read :: "exc + bytes"

record upload_result =
  extracted_data :: dict
  extraction_method :: string
  gemini_flag :: bool

datatype response = Response200 upload_result | Response400 string | Response500 string

text \<open>The vision result is taken when it is non-empty, its \<^verbatim>\<open>error\<close> is not true and its
  \<^verbatim>\<open>all_text\<close> is true.\<close>

definition gemini_accepted :: "dict \<Rightarrow> bool" where
  "gemini_accepted gemini_data =
     (gemini_data \<noteq> [] \<and> \<not> truthy (dict_get gemini_data ''error'') \<and>
      truthy (dict_get gemini_data ''all_text''))"

definition orchestrate :: "(bytes \<Rightarrow> string) \<Rightarrow> ('img, 'arr) world \<Rightarrow> bytes \<Rightarrow> string \<Rightarrow> upload_result" where
  "orchestrate tesseract w file_data mime_type =
     (let (extracted_data, extraction_method) =
            (if gemini_available w then
               (let gemini_data = extract_with_gemini w file_data mime_type in
                if gemini_accepted gemini_data then (gemini_data, ''gemini'')
                else ([], ''tesseract''))
             else ([], ''tesseract''));
          (extracted_data, extraction_method) =
            (if \<not> truthy (dict_get extracted_data ''all_text'')
             then (parse_text_manually (tesseract file_data), ''tesseract'')
             else (extracted_data, extraction_method))
      in \<lparr>extracted_data = extracted_data, extraction_method = extraction_method,
          gemini_flag = gemini_available w\<rparr>)"

definition upload_with ::
  "(bytes \<Rightarrow> string) \<Rightarrow> ('img, 'arr) world \<Rightarrow> file_storage option \<Rightarrow> response" where
  "upload_with tesseract w files =
     (case files of
        None \<Rightarrow> Response400 ''No file provided''
      | Some file \<Rightarrow>
          if filename file = [] then Response400 ''No file selected''
          else if \<not> allowed_file (filename file) then Response400 ''Invalid file type''
          else
            (case file_read file of
               Inl e \<Rightarrow> Response500 (''Processing failed: '' @ exc_str e)
             | Inr file_data \<Rightarrow> Response200 (orchestrate tesseract w file_data (content_type file))))"

definition upload_file :: "('img, 'arr) world \<Rightarrow> file_storage option \<Rightarrow> response" where
  "upload_file w files = upload_with (extract_with_tesseract w) w files"

definition sfp_upload_file :: "('img, 'arr) world \<Rightarrow> file_storage option \<Rightarrow> response" where
  "sfp_upload_file w files = upload_with (sfp_extract_with_tesseract w) w files"



section \<open>The Receipt Synthesizer\<close>

text \<open>
  \<^verbatim>\<open>generate_new_screenshot\<close> draws on a Pillow image and returns its PNG encoding as a
  data URL. The model keeps the image as its size, its background and the drawing calls in
  the order they are made; the encoder is a parameter.

  \<^item> \<open>truetype_found\<close>: whether \<^verbatim>\<open>ImageFont.truetype\<close> loads the three DejaVu fonts
    (otherwise the \<^verbatim>\<open>except\<close> branch takes \<^verbatim>\<open>ImageFont.load_default()\<close>);
  \<^item> \<open>now_text\<close>: \<^verbatim>\<open>datetime.now().strftime("%B %d, %Y at %H:%M")\<close>;
  \<^item> \<open>format_value\<close>: what an f-string makes of a value that is not a string;
  \<^item> \<open>save_png\<close>: \<^verbatim>\<open>img.save(buffer, format='PNG', quality=95)\<close> followed by
    \<^verbatim>\<open>base64.b64encode(buffer.getvalue()).decode()\<close>.
\<close>

text \<open>\<open>DrawWideText\<close> is a call of \<^verbatim>\<open>draw.text\<close> whose text holds a character above 255:
  the call is recorded without the text, which an 8-bit string cannot hold.\<close>

datatype colour = RGB int int int | Named string

datatype font = TrueType string nat | DefaultFont

datatype draw_op =
    DrawLine "int \<times> int" "int \<times> int" colour int
  | DrawRoundedRect "int \<times> int" "int \<times> int" int colour
  | DrawText "int \<times> int" string colour font "string option"
  | DrawWideText "int \<times> int" colour font "string option"

record canvas =
  cv_width :: int
  cv_height :: int
  cv_background :: colour
  cv_ops :: "draw_op list"

record synth_env =
  truetype_found :: bool
  now_text :: string
  format_value :: "json \<Rightarrow> string"
  save_png :: "canvas \<Rightarrow> exc + string"

text \<open>\<^verbatim>\<open>draw.text(xy, text, ...)\<close> takes a string; Pillow raises \<^verbatim>\<open>TypeError\<close> for
  \<^verbatim>\<open>None\<close> and for every other value a JSON body can hold.\<close>

definition draw_text ::
  "int \<times> int \<Rightarrow> json \<Rightarrow> colour \<Rightarrow> font \<Rightarrow> string option \<Rightarrow> exc + draw_op list" where
  "draw_text xy text fill fnt anchor =
     (case text of
        JStr s \<Rightarrow> Inr [DrawText xy s fill fnt anchor]
      | _ \<Rightarrow> Inl (Exc TypeError ''text is not a string''))"

text \<open>\<^verbatim>\<open>len(x)\<close> and \<^verbatim>\<open>x[i]\<close> for a constant index \<open>i \<ge> 0\<close>.\<close>

definition py_len :: "json \<Rightarrow> exc + nat" where
  "py_len x =
     (case x of
        JStr s \<Rightarrow> Inr (length s)
      | JArr xs \<Rightarrow> Inr (length xs)
      | JObj kvs \<Rightarrow> Inr (length kvs)
      | _ \<Rightarrow> Inl (Exc TypeError ''object has no len()''))"

definition py_index :: "json \<Rightarrow> nat \<Rightarrow> exc + json" where
  "py_index x i =
     (case x of
        JStr s \<Rightarrow> if i < length s then Inr (JStr [s ! i]) else Inl (Exc IndexError ''string index out of range'')
      | JArr xs \<Rightarrow> if i < length xs then Inr (xs ! i) else Inl (Exc IndexError ''list index out of range'')
      | JObj kvs \<Rightarrow> Inl (Exc KeyError ''integer key'')
      | _ \<Rightarrow> Inl (Exc TypeError ''object is not subscriptable''))"

definition py_format :: "synth_env \<Rightarrow> json \<Rightarrow> string" where
  "py_format env v = (case v of JStr s \<Rightarrow> s | _ \<Rightarrow> format_value env v)"

text \<open>The statements of the body run in order; the first one that raises ends the body.\<close>

fun run_steps :: "(exc + 'a list) list \<Rightarrow> exc + 'a list" where
  "run_steps [] = Inr []"
| "run_steps (s # ss) =
     and_then s (\<lambda>xs. and_then (run_steps ss) (\<lambda>ys. Inr (xs @ ys)))"

definition gradient_row :: "int \<times> int \<times> int \<Rightarrow> int \<times> int \<times> int \<Rightarrow> int \<Rightarrow> int \<Rightarrow> int \<Rightarrow> draw_op" where
  "gradient_row color1 color2 width height y =
     (case (color1, color2) of
        ((r1, g1, b1), (r2, g2, b2)) \<Rightarrow>
          DrawLine (0, y) (width, y)
            (RGB (r1 + ((r2 - r1) * y) div height)
                 (g1 + ((g2 - g1) * y) div height)
                 (b1 + ((b2 - b1) * y) div height)) 0)"

definition receiver_phone_of :: "json \<Rightarrow> exc + json" where
  "receiver_phone_of phone_numbers =
     (if truthy phone_numbers then py_index phone_numbers 0 else Inr (JStr []))"

definition sender_phone_of :: "json \<Rightarrow> exc + json" where
  "sender_phone_of phone_numbers =
     and_then (py_len phone_numbers) (\<lambda>n.
       if n > 1 then py_index phone_numbers 1
       else if truthy phone_numbers then py_index phone_numbers 0
       else Inr (JStr []))"

definition gradient_lines :: "int \<times> int \<times> int \<Rightarrow> int \<times> int \<times> int \<Rightarrow> int \<Rightarrow> int \<Rightarrow> draw_op list" where
  "gradient_lines color1 color2 width height =
     map (gradient_row color1 color2 width height) [0 .. height - 1]"

text \<open>The two colour pairs, chosen by \<^verbatim>\<open>template_type.lower() == "jazzcash"\<close>.\<close>

definition palette :: "string \<Rightarrow> (int \<times> int \<times> int) \<times> (int \<times> int \<times> int)" where
  "palette template =
     (if py_lower template = ''jazzcash''
      then ((255, 165, 0), (255, 140, 0))
      else ((34, 139, 34), (0, 100, 0)))"

text \<open>\<^verbatim>\<open>template_type.title() if template_type else "Payment App"\<close>.\<close>

definition brand_text_of :: "string \<Rightarrow> string option" where
  "brand_text_of template = (if template \<noteq> [] then py_title template else Some ''Payment App'')"

text \<open>The title, text and large fonts: the DejaVu files, or the built-in font for all three
  when loading them raises.\<close>

definition load_fonts :: "synth_env \<Rightarrow> font \<times> font \<times> font" where
  "load_fonts env =
     (if truetype_found env
      then (TrueType ''DejaVuSans-Bold'' 24, TrueType ''DejaVuSans'' 16, TrueType ''DejaVuSans-Bold'' 32)
      else (DefaultFont, DefaultFont, DefaultFont))"

text \<open>The statements of the \<^verbatim>\<open>try\<close> body after the choice of the colours, each with the
  drawing calls it makes; \<open>template\<close> is \<^verbatim>\<open>template_type\<close>, known to be a string here.
  The assignments of \<^verbatim>\<open>receiver_phone\<close> and \<^verbatim>\<open>sender_phone\<close> can raise; each is a step
  that draws nothing, at its place before the \<^verbatim>\<open>To\<close> and \<^verbatim>\<open>From\<close> rows.\<close>

definition body_steps :: "synth_env \<Rightarrow> dict \<Rightarrow> string \<Rightarrow> (exc + draw_op list) list" where
  "body_steps env edited_data template =
     (let width = 400; height = 600;
          (color1, color2) = palette template;
          (title_font, text_font, large_font) = load_fonts env;
          status = dict_get_default edited_data ''status'' (JStr ''Transaction Successful'');
          tid = dict_get_default edited_data ''transaction_id'' (JStr []);
          date = dict_get_default edited_data ''date'' (JStr (now_text env));
          amount = dict_get_default edited_data ''amount'' (JStr ''Rs. 0.00'');
          method = dict_get_default edited_data ''payment_method'' (JStr ''QR Payment'');
          fee = dict_get_default edited_data ''fee'' (JStr ''Rs. 0.00'');
          receiver = dict_get_default edited_data ''receiver'' (JStr ''Receiver Name'');
          phone_numbers = dict_get_default edited_data ''phone_numbers'' (JArr []);
          sender = dict_get_default edited_data ''sender'' (JStr ''Sender Name'');
          brand_text = brand_text_of template
      in
      [Inr (gradient_lines color1 color2 width height),
       Inr [DrawRoundedRect (50, 80) (width - 50, height - 80) 15 (Named ''white'')],
       draw_text (width div 2, 50) status (Named ''white'') title_font (Some ''mm''),
       (if truthy tid
        then draw_text (width div 2, 120) (JStr (''TID: '' @ py_format env tid))
               (Named ''black'') text_font (Some ''mm'')
        else Inr []),
       draw_text (width div 2, 145) date (Named ''gray'') text_font (Some ''mm''),
       draw_text (width div 2, 220) amount (Named ''black'') large_font (Some ''mm''),
       draw_text (width div 2, 260) method (Named ''gray'') text_font (Some ''mm''),
       draw_text (70, 320) (JStr ''Fee'') (Named ''black'') text_font None,
       draw_text (width - 70, 320) fee (Named ''black'') text_font (Some ''rm''),
       Inr [DrawLine (70, 345) (width - 70, 345) (Named ''lightgray'') 1],
       and_then (receiver_phone_of phone_numbers) (\<lambda>receiver_phone. Inr []),
       draw_text (70, 370) (JStr ''To'') (Named ''black'') text_font None,
       draw_text (width - 70, 370) receiver (Named ''black'') text_font (Some ''rm''),
       and_then (receiver_phone_of phone_numbers) (\<lambda>receiver_phone.
         if truthy receiver_phone
         then draw_text (width - 70, 395) receiver_phone (Named ''gray'') text_font (Some ''rm'')
         else Inr []),
       Inr [DrawLine (70, 425) (width - 70, 425) (Named ''lightgray'') 1],
       and_then (sender_phone_of phone_numbers) (\<lambda>sender_phone. Inr []),
       draw_text (70, 450) (JStr ''From'') (Named ''black'') text_font None,
       draw_text (width - 70, 450) sender (Named ''black'') text_font (Some ''rm''),
       and_then (sender_phone_of phone_numbers) (\<lambda>sender_phone.
         if truthy sender_phone
         then draw_text (width - 70, 475) sender_phone (Named ''gray'') text_font (Some ''rm'')
         else Inr []),
       (case brand_text of
          Some brand \<Rightarrow>
            draw_text (width div 2, height - 30) (JStr (''Securely paid via '' @ brand))
              (Named ''white'') text_font (Some ''mm'')
        | None \<Rightarrow>
            Inr [DrawWideText (width div 2, height - 30) (Named ''white'') text_font (Some ''mm'')])])"

text \<open>The body of the \<^verbatim>\<open>try\<close> up to the encoding: \<^verbatim>\<open>template_type.lower()\<close> comes
  first and raises for a selector that is not a string.\<close>

definition render :: "synth_env \<Rightarrow> dict \<Rightarrow> json \<Rightarrow> exc + canvas" where
  "render env edited_data template_type =
     (case template_type of
        JStr template \<Rightarrow>
          and_then (run_steps (body_steps env edited_data template))
            (\<lambda>ops. Inr \<lparr>cv_width = 400, cv_height = 600,
                         cv_background = (case fst (palette template) of (r, g, b) \<Rightarrow> RGB r g b),
                         cv_ops = ops\<rparr>)
      | _ \<Rightarrow> Inl (Exc AttributeError ''object has no attribute lower''))"

text \<open>Every exception of the body is caught; the function then returns \<^verbatim>\<open>None\<close>.\<close>

definition generate_new_screenshot :: "synth_env \<Rightarrow> dict \<Rightarrow> json \<Rightarrow> string option" where
  "generate_new_screenshot env edited_data template_type =
     (case and_then (render env edited_data template_type) (save_png env) of
        Inl e \<Rightarrow> None
      | Inr image_b64 \<Rightarrow> Some (''data:image/png;base64,'' @ image_b64))"

text \<open>The texts a canvas shows, and those drawn at one position.\<close>

fun op_text :: "draw_op \<Rightarrow> string option" where
  "op_text (DrawText xy s fill fnt anchor) = Some s"
| "op_text (DrawLine a b c w) = None"
| "op_text (DrawRoundedRect a b r c) = None"
| "op_text (DrawWideText xy fill fnt anchor) = None"

definition canvas_texts :: "canvas \<Rightarrow> string list" where
  "canvas_texts c = List.map_filter op_text (cv_ops c)"


definition text_at :: "int \<times> int \<Rightarrow> draw_op list \<Rightarrow> string list" where
  "text_at p ops =
     List.map_filter
       (\<lambda>x. case x of
              DrawText xy s fill fnt anchor \<Rightarrow> if xy = p then Some s else None
            | _ \<Rightarrow> None) ops"

definition step_texts :: "int \<times> int \<Rightarrow> exc + draw_op list \<Rightarrow> string list" where
  "step_texts p s = (case s of Inl e \<Rightarrow> [] | Inr ops \<Rightarrow> text_at p ops)"


text \<open>The keys that \<^verbatim>\<open>generate_new_screenshot\<close> reads with a fixed default, each with the
  position its value is drawn at and the default.\<close>

definition placeholders :: "(string \<times> (int \<times> int) \<times> string) list" where
  "placeholders =
     [(''status'', (200, 50), ''Transaction Successful''),
      (''amount'', (200, 220), ''Rs. 0.00''),
      (''payment_method'', (200, 260), ''QR Payment''),
      (''fee'', (330, 320), ''Rs. 0.00''),
      (''receiver'', (330, 370), ''Receiver Name''),
      (''sender'', (330, 450), ''Sender Name'')]"


text \<open>A concrete environment for examples: the fonts load, and the encoder returns a fixed
  text.\<close>

definition example_env :: synth_env where
  "example_env =
     \<lparr>truetype_found = True, now_text = ''January 05, 2026 at 10:30'',
      format_value = (\<lambda>v. ''?''), save_png = (\<lambda>c. Inr ''iVBORw0KGgo='')\<rparr>"

text \<open>The result of the text-recognition path: the Field Parser's dictionary for the text
  that the recognition returns, tagged \<^verbatim>\<open>tesseract\<close>.\<close>

definition text_path :: "(bytes \<Rightarrow> string) \<Rightarrow> ('img, 'arr) world \<Rightarrow> bytes \<Rightarrow> upload_result" where
  "text_path tesseract w file_data =
     \<lparr>extracted_data = parse_text_manually (tesseract file_data),
      extraction_method = ''tesseract'', gemini_flag = gemini_available w\<rparr>"

text \<open>The key set of a PaymentRecord.\<close>

definition fixed_keys :: "string set" where
  "fixed_keys =
     {''transaction_id'', ''amount'', ''date'', ''sender'', ''receiver'', ''fee'',
      ''payment_method'', ''status'', ''reference'', ''bank_info'', ''location'',
      ''phone_numbers'', ''all_text''}"

text \<open>
  A concrete world for examples. A file is an image when it starts with \<^verbatim>\<open>PNG\<close>
  (OpenCV gives \<^verbatim>\<open>None\<close> for any other file, and raises on the empty one); the
  contrast step fails on an image of fewer than five bytes; the text recognition reads the
  bytes after the first four under every configuration, and the vision service replies with
  those bytes as well. \<^verbatim>\<open>json.loads\<close> is given on three texts; every other text is
  taken to be no JSON.
\<close>

definition example_loads :: "string \<Rightarrow> exc + dict" where
  \<open>example_loads s =
     (if s = ''{"all_text": "hi", "extra": 1}''
      then Inr [(''all_text'', JStr ''hi''), (''extra'', JInt 1)]
      else if s = ''{"error": null, "all_text": "hello"}''
      then Inr [(''error'', JNull), (''all_text'', JStr ''hello'')]
      else if s = ''{"all_text": "", "amount": "Rs. 5"}''
      then Inr [(''all_text'', JStr []), (''amount'', JStr ''Rs. 5'')]
      else Inl (Exc JSONDecodeError ''Expecting value''))\<close>

definition example_world :: "(string, string) world" where
  "example_world =
     \<lparr>gemini_available = True,
      image_open = (\<lambda>b. if starts_with ''PNG'' b then Inr b
                        else Inl (Exc OtherException ''cannot identify image file'')),
      image_mode = (\<lambda>i. ''RGB''),
      convert_L = Inr,
      contrast = (\<lambda>i. if length i < 5 then Inl (Exc OtherException ''image too small'') else Inr i),
      sharpness = Inr,
      imdecode = (\<lambda>b. if b = [] then Inl (Exc OtherException ''imdecode: empty buffer'')
                      else if starts_with ''PNG'' b then Inr (Some b) else Inr None),
      cvt_gray = Inr,
      denoise = Inr,
      threshold_otsu = Inr,
      fromarray = Inr,
      image_to_string = (\<lambda>i config. Inr (drop 4 i)),
      new_model = Inr (),
      generate_content = (\<lambda>i. Inr (Inr (drop 4 i))),
      json_loads = example_loads\<rparr>"


section \<open>Properties of the Receipt Synthesizer\<close>

lemma and_then_Inr [simp]: "and_then (Inr x) f = f x"
  by (simp add: and_then_def)

lemma and_then_Inl [simp]: "and_then (Inl e) f = Inl e"
  by (simp add: and_then_def)

lemma and_then_eq_Inr: "and_then m f = Inr y \<longleftrightarrow> (\<exists>x. m = Inr x \<and> f x = Inr y)"
  by (cases m) simp_all

lemma draw_text_str [simp]: "draw_text xy (JStr s) fill fnt anchor = Inr [DrawText xy s fill fnt anchor]"
  by (simp add: draw_text_def)

lemma run_steps_eq_Inr: "run_steps ss = Inr ops \<longleftrightarrow> (\<exists>xss. ss = map Inr xss \<and> ops = concat xss)"
proof (induction ss arbitrary: ops)
  case Nil
  then show ?case by auto
next
  case (Cons s ss)
  show ?case
  proof (cases s)
    case (Inl e)
    then show ?thesis by (auto simp: Cons_eq_map_conv)
  next
    case (Inr xs)
    then show ?thesis
      by (auto simp: Cons and_then_eq_Inr Cons_eq_map_conv)
  qed
qed

lemma text_at_append [simp]: "text_at p (xs @ ys) = text_at p xs @ text_at p ys"
  by (simp add: text_at_def map_filter_def)

lemma text_at_Nil [simp]: "text_at p [] = []"
  by (simp add: text_at_def map_filter_def)

lemma text_at_Cons [simp]:
  "text_at p (DrawText xy s fill fnt anchor # ops) = (if xy = p then s # text_at p ops else text_at p ops)"
  "text_at p (DrawLine a b c w # ops) = text_at p ops"
  "text_at p (DrawRoundedRect a b r c # ops) = text_at p ops"
  "text_at p (DrawWideText xy fill fnt anchor # ops) = text_at p ops"
  by (simp_all add: text_at_def map_filter_def)

lemma text_at_gradient [simp]: "text_at p (gradient_lines c1 c2 w h) = []"
  by (cases c1; cases c2) (simp add: gradient_lines_def gradient_row_def map_filter_def text_at_def)

lemma step_texts_simps [simp]:
  "step_texts p (Inr ops) = text_at p ops"
  "step_texts p (Inl e) = []"
  by (simp_all add: step_texts_def)

lemma step_texts_draw_text [simp]:
  "step_texts p (draw_text xy v fill fnt anchor) =
     (if xy = p then (case v of JStr s \<Rightarrow> [s] | _ \<Rightarrow> []) else [])"
  by (cases v) (simp_all add: draw_text_def)

lemma step_texts_if [simp]:
  "step_texts p (if b then x else y) = (if b then step_texts p x else step_texts p y)"
  by simp

lemma text_at_concat: "text_at p (concat xss) = concat (map (\<lambda>xs. step_texts p (Inr xs)) xss)"
  by (induction xss) simp_all

lemma text_at_run_steps:
  "run_steps ss = Inr ops \<Longrightarrow> text_at p ops = concat (map (step_texts p) ss)"
  by (auto simp: run_steps_eq_Inr text_at_concat comp_def)

lemma step_texts_and_then_Nil:
  "\<forall>x. step_texts p (f x) = [] \<Longrightarrow> step_texts p (and_then m f) = []"
  by (cases m) simp_all


lemma isl_draw_text [simp]: "isl (draw_text xy v fill fnt anchor) \<longleftrightarrow> (\<forall>s. v \<noteq> JStr s)"
  by (cases v) (simp_all add: draw_text_def)

lemma isl_run_steps: "isl (run_steps ss) \<longleftrightarrow> list_ex isl ss"
proof (induction ss)
  case Nil
  then show ?case by simp
next
  case (Cons s ss)
  then show ?case by (cases s; cases "run_steps ss") auto
qed

lemma isl_and_then_const [simp]: "isl (and_then m (\<lambda>x. Inr y)) = isl m"
  by (cases m) simp_all


lemma gradient_no_text [simp]: "List.map_filter op_text (gradient_lines c1 c2 w h) = []"
  by (cases c1; cases c2) (simp add: gradient_lines_def gradient_row_def map_filter_def)

lemma map_filter_app: "List.map_filter f (xs @ ys) = List.map_filter f xs @ List.map_filter f ys"
  by (simp add: map_filter_def)

lemma placeholders_cases:
  assumes "(k, p, ph) \<in> set placeholders"
  shows "(k = ''status'' \<and> p = (200, 50) \<and> ph = ''Transaction Successful'') \<or>
         (k = ''amount'' \<and> p = (200, 220) \<and> ph = ''Rs. 0.00'') \<or>
         (k = ''payment_method'' \<and> p = (200, 260) \<and> ph = ''QR Payment'') \<or>
         (k = ''fee'' \<and> p = (330, 320) \<and> ph = ''Rs. 0.00'') \<or>
         (k = ''receiver'' \<and> p = (330, 370) \<and> ph = ''Receiver Name'') \<or>
         (k = ''sender'' \<and> p = (330, 450) \<and> ph = ''Sender Name'')"
  using assms by (simp add: placeholders_def)

lemma body_fails_date:
  "\<forall>s. dict_get_default d ''date'' (JStr (now_text env)) \<noteq> JStr s \<Longrightarrow>
         isl (run_steps (body_steps env d template))"
  unfolding isl_run_steps
  by (simp add: body_steps_def Let_def split: prod.splits option.splits)

lemma body_fails:
  "(k, p, ph) \<in> set placeholders \<Longrightarrow> \<forall>s. dict_get_default d k (JStr ph) \<noteq> JStr s \<Longrightarrow>
         isl (run_steps (body_steps env d template))"
  unfolding isl_run_steps
  by (drule placeholders_cases; elim disjE conjE; hypsubst;
      simp add: body_steps_def Let_def split: prod.splits option.splits)

lemma body_text_date:
  assumes "run_steps (body_steps env d template) = Inr ops"
  shows "text_at (200, 145) ops =
           (case dict_get_default d ''date'' (JStr (now_text env)) of JStr s \<Rightarrow> [s] | _ \<Rightarrow> [])"
  unfolding text_at_run_steps [OF assms]
  by (simp add: body_steps_def Let_def step_texts_and_then_Nil split: prod.splits option.splits)

lemma body_text_key:
  assumes "run_steps (body_steps env d template) = Inr ops" and "(k, p, ph) \<in> set placeholders"
  shows "text_at p ops = (case dict_get_default d k (JStr ph) of JStr s \<Rightarrow> [s] | _ \<Rightarrow> [])"
  using placeholders_cases [OF assms(2)] unfolding text_at_run_steps [OF assms(1)]
  by (elim disjE conjE; hypsubst;
      simp add: body_steps_def Let_def step_texts_and_then_Nil split: prod.splits option.splits)

lemma render_Inr_steps:
  "render env d t = Inr c \<Longrightarrow> \<exists>template. t = JStr template \<and> run_steps (body_steps env d template) = Inr (cv_ops c)"
  by (cases t) (auto simp: render_def and_then_eq_Inr)

lemma render_isl:
  "isl (run_steps (body_steps env d template)) \<Longrightarrow> generate_new_screenshot env d (JStr template) = None"
  by (cases "run_steps (body_steps env d template)") (simp_all add: generate_new_screenshot_def render_def)

lemma render_not_str:
  "\<forall>template. t \<noteq> JStr template \<Longrightarrow> generate_new_screenshot env d t = None"
  by (cases t) (simp_all add: generate_new_screenshot_def render_def)

lemma empty_steps:
  "run_steps (body_steps env [] template) =
     Inr (gradient_lines (fst (palette template)) (snd (palette template)) 400 600 @
       [DrawRoundedRect (50, 80) (350, 520) 15 (Named ''white''),
        DrawText (200, 50) ''Transaction Successful'' (Named ''white'') (fst (load_fonts env)) (Some ''mm''),
        DrawText (200, 145) (now_text env) (Named ''gray'') (fst (snd (load_fonts env))) (Some ''mm''),
        DrawText (200, 220) ''Rs. 0.00'' (Named ''black'') (snd (snd (load_fonts env))) (Some ''mm''),
        DrawText (200, 260) ''QR Payment'' (Named ''gray'') (fst (snd (load_fonts env))) (Some ''mm''),
        DrawText (70, 320) ''Fee'' (Named ''black'') (fst (snd (load_fonts env))) None,
        DrawText (330, 320) ''Rs. 0.00'' (Named ''black'') (fst (snd (load_fonts env))) (Some ''rm''),
        DrawLine (70, 345) (330, 345) (Named ''lightgray'') 1,
        DrawText (70, 370) ''To'' (Named ''black'') (fst (snd (load_fonts env))) None,
        DrawText (330, 370) ''Receiver Name'' (Named ''black'') (fst (snd (load_fonts env))) (Some ''rm''),
        DrawLine (70, 425) (330, 425) (Named ''lightgray'') 1,
        DrawText (70, 450) ''From'' (Named ''black'') (fst (snd (load_fonts env))) None,
        DrawText (330, 450) ''Sender Name'' (Named ''black'') (fst (snd (load_fonts env))) (Some ''rm''),
        (case brand_text_of template of
           Some brand \<Rightarrow>
             DrawText (200, 570) (''Securely paid via '' @ brand) (Named ''white'')
               (fst (snd (load_fonts env))) (Some ''mm'')
         | None \<Rightarrow>
             DrawWideText (200, 570) (Named ''white'') (fst (snd (load_fonts env))) (Some ''mm''))])"
  by (simp add: body_steps_def Let_def dict_get_default_def receiver_phone_of_def
      sender_phone_of_def py_len_def split: prod.splits option.splits)

text \<open>
  Claim C7. Given an empty request (a dictionary with no keys) and any template name, the
  Receipt Synthesizer does not fail before the encoding: it draws on a 400 by 600 canvas, the
  texts drawn are the defaults \<^verbatim>\<open>Transaction Successful\<close>, the current time,
  \<^verbatim>\<open>Rs. 0.00\<close>, \<^verbatim>\<open>QR Payment\<close>, the fee \<^verbatim>\<open>Rs. 0.00\<close>, \<^verbatim>\<open>Receiver Name\<close> and
  \<^verbatim>\<open>Sender Name\<close> with their labels, followed by the branding line (its text is kept
  when the title-cased template is an 8-bit string), and the function returns the data URL
  of what Pillow encodes from that canvas as PNG.
\<close>

theorem synthesizer_empty_request:
  "\<exists>c. render env [] (JStr template) = Inr c \<and>
       cv_width c = 400 \<and> cv_height c = 600 \<and>
       canvas_texts c =
         [''Transaction Successful'', now_text env, ''Rs. 0.00'', ''QR Payment'', ''Fee'',
          ''Rs. 0.00'', ''To'', ''Receiver Name'', ''From'', ''Sender Name''] @
         (case brand_text_of template of
            Some brand \<Rightarrow> [''Securely paid via '' @ brand]
          | None \<Rightarrow> []) \<and>
       generate_new_screenshot env [] (JStr template) =
         (case save_png env c of
            Inl e \<Rightarrow> None
          | Inr image_b64 \<Rightarrow> Some (''data:image/png;base64,'' @ image_b64))"
  by (simp add: render_def generate_new_screenshot_def empty_steps canvas_texts_def
      map_filter_app del: map_filter_simps)  (simp add: map_filter_def split: option.splits)

text \<open>
  Claim C10. A default of the Receipt Synthesizer applies only when the key is absent. For
  each key with a fixed default (and for \<^verbatim>\<open>date\<close>, whose default is the current time):
  when the key is absent and rendering succeeds, the default is the text drawn at the key's
  position; when the key is present with a string, that string is the text drawn there, the
  empty string included; when the key is present with \<^verbatim>\<open>None\<close>, rendering raises, the
  exception is caught and the function returns \<^verbatim>\<open>None\<close>.
\<close>

theorem synthesizer_defaults_only_for_absent_keys:
  assumes "(k, p, ph) \<in> set placeholders"
  shows
    "(map_of d k = None \<longrightarrow> render env d t = Inr c \<longrightarrow> text_at p (cv_ops c) = [ph]) \<and>
     (map_of d k = Some (JStr s) \<longrightarrow> render env d t = Inr c \<longrightarrow> text_at p (cv_ops c) = [s]) \<and>
     (map_of d k = Some JNull \<longrightarrow> generate_new_screenshot env d t = None) \<and>
     (map_of d ''date'' = None \<longrightarrow> render env d t = Inr c \<longrightarrow>
        text_at (200, 145) (cv_ops c) = [now_text env]) \<and>
     (map_of d ''date'' = Some (JStr s) \<longrightarrow> render env d t = Inr c \<longrightarrow>
        text_at (200, 145) (cv_ops c) = [s]) \<and>
     (map_of d ''date'' = Some JNull \<longrightarrow> generate_new_screenshot env d t = None)"
proof -
  have texts: "text_at p (cv_ops c) = (case dict_get_default d k (JStr ph) of JStr s \<Rightarrow> [s] | _ \<Rightarrow> [])"
    "text_at (200, 145) (cv_ops c) =
       (case dict_get_default d ''date'' (JStr (now_text env)) of JStr s \<Rightarrow> [s] | _ \<Rightarrow> [])"
    if "render env d t = Inr c"
    using render_Inr_steps [OF that] body_text_key [OF _ assms] body_text_date by blast+
  have none: "generate_new_screenshot env d t = None"
    if "map_of d k = Some JNull \<or> map_of d ''date'' = Some JNull"
  proof (cases t)
    case (JStr template)
    have "isl (run_steps (body_steps env d template))"
      using that body_fails [OF assms, of d env template] body_fails_date [of d env template]
      by (auto simp: dict_get_default_def)
    then show ?thesis using render_isl JStr by simp
  qed (simp_all add: render_not_str)
  show ?thesis
    using texts none by (auto simp: dict_get_default_def)
qed

lemma render_not_isl:
  "\<not> isl (run_steps (body_steps env d template)) \<Longrightarrow> \<exists>c. render env d (JStr template) = Inr c"
  by (cases "run_steps (body_steps env d template)") (simp_all add: render_def)

theorem synthesizer_defaults_only_for_absent_keys_witness:
  "(''amount'', (200, 220), ''Rs. 0.00'') \<in> set placeholders \<and>
   (\<exists>c. render example_env [(''amount'', JStr [])] (JStr ''jazzcash'') = Inr c \<and>
        text_at (200, 220) (cv_ops c) = [[]]) \<and>
   (\<exists>c. render example_env [(''status'', JStr ''Failed'')] (JStr ''jazzcash'') = Inr c \<and>
        text_at (200, 220) (cv_ops c) = [''Rs. 0.00'']) \<and>
   generate_new_screenshot example_env [(''amount'', JNull)] (JStr ''jazzcash'') = None \<and>
   generate_new_screenshot example_env [(''date'', JNull)] (JStr ''jazzcash'') = None"
proof -
  have mem: "(''amount'', (200, 220), ''Rs. 0.00'') \<in> set placeholders"
    by (simp add: placeholders_def)
  have "\<not> isl (run_steps (body_steps example_env [(''amount'', JStr [])] ''jazzcash''))"
    unfolding isl_run_steps
    by (simp add: body_steps_def Let_def dict_get_default_def receiver_phone_of_def
        sender_phone_of_def py_len_def split: prod.splits option.splits)
  then obtain c1 where c1: "render example_env [(''amount'', JStr [])] (JStr ''jazzcash'') = Inr c1"
    using render_not_isl by blast
  have "\<not> isl (run_steps (body_steps example_env [(''status'', JStr ''Failed'')] ''jazzcash''))"
    unfolding isl_run_steps
    by (simp add: body_steps_def Let_def dict_get_default_def receiver_phone_of_def
        sender_phone_of_def py_len_def split: prod.splits option.splits)
  then obtain c2 where c2: "render example_env [(''status'', JStr ''Failed'')] (JStr ''jazzcash'') = Inr c2"
    using render_not_isl by blast
  have "text_at (200, 220) (cv_ops c1) = [[]]"
    using synthesizer_defaults_only_for_absent_keys [OF mem, of "[(''amount'', JStr [])]" example_env
        "JStr ''jazzcash''" c1 "[]"] c1 by simp
  moreover have "text_at (200, 220) (cv_ops c2) = [''Rs. 0.00'']"
    using synthesizer_defaults_only_for_absent_keys [OF mem, of "[(''status'', JStr ''Failed'')]" example_env
        "JStr ''jazzcash''" c2 "[]"] c2 by simp
  moreover have "generate_new_screenshot example_env [(''amount'', JNull)] (JStr ''jazzcash'') = None"
    using synthesizer_defaults_only_for_absent_keys [OF mem, of "[(''amount'', JNull)]" example_env
        "JStr ''jazzcash''" c1 "[]"] by simp
  moreover have "generate_new_screenshot example_env [(''date'', JNull)] (JStr ''jazzcash'') = None"
    using synthesizer_defaults_only_for_absent_keys [OF mem, of "[(''date'', JNull)]" example_env
        "JStr ''jazzcash''" c1 "[]"] by simp
  ultimately show ?thesis using mem c1 c2 by blast
qed

section \<open>Properties of the preprocessor and the orchestrator\<close>







lemma orchestrate_accepted:
  "gemini_available w \<Longrightarrow> gemini_accepted (extract_with_gemini w file_data mime_type) \<Longrightarrow>
   orchestrate tesseract w file_data mime_type =
     \<lparr>extracted_data = extract_with_gemini w file_data mime_type,
      extraction_method = ''gemini'', gemini_flag = True\<rparr>"
  by (simp add: orchestrate_def Let_def gemini_accepted_def)

lemma orchestrate_rejected:
  "\<not> (gemini_available w \<and> gemini_accepted (extract_with_gemini w file_data mime_type)) \<Longrightarrow>
   orchestrate tesseract w file_data mime_type = text_path tesseract w file_data"
  by (auto simp add: orchestrate_def Let_def text_path_def dict_get_def)

lemma gemini_try_raises:
  "gemini_try w file_data mime_type = Inl e \<Longrightarrow>
   \<not> gemini_accepted (extract_with_gemini w file_data mime_type)"
  by (simp add: extract_with_gemini_def gemini_accepted_def dict_get_def)

lemma upload_with_valid:
  "filename file \<noteq> [] \<Longrightarrow> allowed_file (filename file) \<Longrightarrow> file_read file = Inr file_data \<Longrightarrow>
   upload_with tesseract w (Some file) =
     Response200 (orchestrate tesseract w file_data (content_type file))"
  by (simp add: upload_with_def)

text \<open>
  Claim C3, as amended. If the vision adapter raises internally, or the mapping it returns
  has a true value under \<^verbatim>\<open>error\<close>, or has no true value under \<^verbatim>\<open>all_text\<close>, then the
  orchestrator's result is the result of the text-recognition path (Preprocessor, Text
  Recognition Adapter, Field Parser), tagged \<^verbatim>\<open>tesseract\<close>; and the upload of a readable
  file with an allowed name then answers with that result, not with an error.
\<close>

theorem orchestrator_falls_back_to_text_path:
  assumes "gemini_try w file_data mime_type = Inl e \<or>
           truthy (dict_get (extract_with_gemini w file_data mime_type) ''error'') \<or>
           \<not> truthy (dict_get (extract_with_gemini w file_data mime_type) ''all_text'')"
  shows "orchestrate tesseract w file_data mime_type = text_path tesseract w file_data \<and>
         (filename file \<noteq> [] \<and> allowed_file (filename file) \<and> file_read file = Inr file_data \<and>
          content_type file = mime_type \<longrightarrow>
            upload_with tesseract w (Some file) = Response200 (text_path tesseract w file_data))"
proof -
  have "\<not> gemini_accepted (extract_with_gemini w file_data mime_type)"
    using assms gemini_try_raises [of w file_data mime_type e]
    by (auto simp: gemini_accepted_def)
  then have "orchestrate tesseract w file_data mime_type = text_path tesseract w file_data"
    by (simp add: orchestrate_rejected)
  then show ?thesis
    by (auto simp: upload_with_valid)
qed

theorem orchestrator_falls_back_to_text_path_witness:
  "gemini_try example_world ''GIF89a'' ''image/gif'' =
     Inl (Exc OtherException ''cannot identify image file'') \<and>
   upload_file example_world
     (Some \<lparr>filename = ''a.gif'', content_type = ''image/gif'', file_read = Inr ''GIF89a''\<rparr>) =
     Response200 (text_path (extract_with_tesseract example_world) example_world ''GIF89a'')"
proof -
  have a: "gemini_try example_world ''GIF89a'' ''image/gif'' =
      Inl (Exc OtherException ''cannot identify image file'')"
    by (simp add: gemini_try_def example_world_def)
  have b: "allowed_file ''a.gif''"
    by (simp add: allowed_file_def allowed_extensions_def py_lower_def lower_char_def
        is_ascii_upper_def is_latin_upper_def in_range_def ch_code_def)
  from orchestrator_falls_back_to_text_path [of example_world "''GIF89a''" "''image/gif''"
      "Exc OtherException ''cannot identify image file''" "extract_with_tesseract example_world"
      "\<lparr>filename = ''a.gif'', content_type = ''image/gif'', file_read = Inr ''GIF89a''\<rparr>"] a b
  show ?thesis by (simp add: upload_file_def)
qed

text \<open>The claim as stated fails for a mapping that carries the key \<^verbatim>\<open>error\<close> with a value
  that is not true: the service's reply \<^verbatim>\<open>{"error": null, "all_text": "hello"}\<close> is taken as
  the vision result.\<close>

theorem orchestrator_accepts_null_error_key:
  \<open>''error'' \<in> dict_keys (extract_with_gemini example_world ''PNG {"error": null, "all_text": "hello"}'' ''image/png'') \<and>
   orchestrate (extract_with_tesseract example_world) example_world
       ''PNG {"error": null, "all_text": "hello"}'' ''image/png'' =
     \<lparr>extracted_data = [(''error'', JNull), (''all_text'', JStr ''hello'')],
      extraction_method = ''gemini'', gemini_flag = True\<rparr>\<close>
  by code_simp

lemma update_present_keys:
  "k \<in> set (map fst d) \<Longrightarrow> map fst (AList.update k v d) = map fst d"
  by (simp add: update_keys)

lemma apply_patterns_keys:
  "\<forall>(field, ps) \<in> set pats. field \<in> set (map fst d) \<Longrightarrow>
   map fst (apply_patterns pats text d) = map fst d"
proof (induction pats arbitrary: d)
  case Nil
  then show ?case by simp
next
  case (Cons p pats)
  obtain field ps where p: "p = (field, ps)" by (cases p)
  let ?d = "case first_match ps text of
              None \<Rightarrow> d
            | Some g \<Rightarrow>
                if field \<in> set [''amount'', ''fee'']
                then AList.update field (JStr (''Rs. '' @ g)) d
                else AList.update field (JStr g) d"
  have field: "field \<in> set (map fst d)" using Cons.prems p by auto
  then have keys: "map fst ?d = map fst d"
    by (simp add: update_present_keys split: option.splits)
  have "\<forall>(field, ps) \<in> set pats. field \<in> set (map fst ?d)"
    using Cons.prems keys by auto
  from Cons.IH [OF this] keys show ?case
    by (simp add: p)
qed

lemma line_step_keys:
  assumes "''sender'' \<in> set (map fst d)" "''receiver'' \<in> set (map fst d)" "''status'' \<in> set (map fst d)"
  shows "map fst (line_step line rest d) = map fst d"
proof -
  have s: "map fst (sender_step l rest d) = map fst d" for l
    using assms(1) by (simp add: sender_step_def Let_def update_present_keys split: list.splits)
  have r: "map fst (receiver_step l rest d') = map fst d'" if "''receiver'' \<in> set (map fst d')" for l d'
    using that by (simp add: receiver_step_def Let_def update_present_keys split: list.splits)
  have t: "map fst (status_step l d') = map fst d'" if "''status'' \<in> set (map fst d')" for l d'
    using that by (simp add: status_step_def update_present_keys)
  show ?thesis
    unfolding line_step_def Let_def using assms by (simp add: s r t)
qed

lemma scan_lines_keys:
  "''sender'' \<in> set (map fst d) \<Longrightarrow> ''receiver'' \<in> set (map fst d) \<Longrightarrow>
   ''status'' \<in> set (map fst d) \<Longrightarrow> map fst (scan_lines ls d) = map fst d"
proof (induction ls arbitrary: d)
  case Nil
  then show ?case by simp
next
  case (Cons l ls)
  have k: "map fst (line_step l ls d) = map fst d"
    using Cons.prems by (rule line_step_keys)
  show ?case
    using Cons.IH [of "line_step l ls d"] Cons.prems k by simp
qed

lemma detect_method_keys:
  "''payment_method'' \<in> set (map fst d) \<Longrightarrow> map fst (detect_method ms text d) = map fst d"
  by (induction ms) (simp_all add: update_present_keys split: option.splits)

lemma parse_keys_list: "map fst (parse_text_manually text) = map fst (initial_data text)"
proof -
  have a: "map fst (apply_patterns patterns text (initial_data text)) = map fst (initial_data text)"
    by (rule apply_patterns_keys) (simp add: patterns_def initial_data_def)
  let ?d1 = "AList.update ''phone_numbers'' (JArr (map JStr (collect_phones text)))
               (apply_patterns patterns text (initial_data text))"
  have b: "map fst ?d1 = map fst (initial_data text)"
    using a by (simp add: update_present_keys initial_data_def)
  have c: "map fst (scan_lines (split_nl text) ?d1) = map fst (initial_data text)"
    using b by (simp add: scan_lines_keys initial_data_def)
  have d: "map fst (detect_method methods text (scan_lines (split_nl text) ?d1)) = map fst (initial_data text)"
    using c by (simp add: detect_method_keys initial_data_def)
  then show ?thesis by (simp add: parse_text_manually_def Let_def)
qed

lemma parse_keys: "dict_keys (parse_text_manually text) = fixed_keys"
  unfolding dict_keys_def parse_keys_list
  by (auto simp add: initial_data_def fixed_keys_def)

lemma gemini_verbatim:
  assumes "gemini_available w" "new_model w = Inr u" "image_open w file_data = Inr img"
    "generate_content w img = Inr (Inr reply)"
    "re_search False json_span (py_strip reply) = Some json_match"
    "json_loads w (m_text json_match) = Inr parsed"
  shows "extract_with_gemini w file_data mime_type = parsed"
  using assms
  by (simp add: extract_with_gemini_def gemini_try_def gemini_parse_def gemini_parse_try_def Let_def)

text \<open>
  Claim C1, as amended. When the vision result is accepted, the record returned to the
  caller is the adapter's mapping as it is, tagged \<^verbatim>\<open>gemini\<close>, with a true \<^verbatim>\<open>all_text\<close>;
  for a reply holding a JSON object it is what \<^verbatim>\<open>json.loads\<close> returned, so its keys are
  exactly the keys of the reply: unknown keys are kept, and keys missing from the reply are
  absent.
\<close>

theorem orchestrator_returns_vision_mapping_verbatim:
  "(gemini_available w \<and> gemini_accepted (extract_with_gemini w file_data mime_type) \<longrightarrow>
      extracted_data (orchestrate tesseract w file_data mime_type) =
        extract_with_gemini w file_data mime_type \<and>
      extraction_method (orchestrate tesseract w file_data mime_type) = ''gemini'' \<and>
      truthy (dict_get (extracted_data (orchestrate tesseract w file_data mime_type)) ''all_text'')) \<and>
   (gemini_available w \<and> new_model w = Inr u \<and> image_open w file_data = Inr img \<and>
    generate_content w img = Inr (Inr reply) \<and>
    re_search False json_span (py_strip reply) = Some json_match \<and>
    json_loads w (m_text json_match) = Inr parsed \<and> gemini_accepted parsed \<longrightarrow>
      extracted_data (orchestrate tesseract w file_data mime_type) = parsed \<and>
      dict_keys (extracted_data (orchestrate tesseract w file_data mime_type)) = dict_keys parsed)"
proof (intro conjI impI)
  assume a: "gemini_available w \<and> gemini_accepted (extract_with_gemini w file_data mime_type)"
  then have o: "orchestrate tesseract w file_data mime_type =
      \<lparr>extracted_data = extract_with_gemini w file_data mime_type,
       extraction_method = ''gemini'', gemini_flag = True\<rparr>"
    by (simp add: orchestrate_accepted)
  show "extracted_data (orchestrate tesseract w file_data mime_type) =
      extract_with_gemini w file_data mime_type"
    by (simp add: o)
  show "extraction_method (orchestrate tesseract w file_data mime_type) = ''gemini''"
    by (simp add: o)
  show "truthy (dict_get (extracted_data (orchestrate tesseract w file_data mime_type)) ''all_text'')"
    using a by (simp add: o gemini_accepted_def)
next
  assume a: "gemini_available w \<and> new_model w = Inr u \<and> image_open w file_data = Inr img \<and>
    generate_content w img = Inr (Inr reply) \<and>
    re_search False json_span (py_strip reply) = Some json_match \<and>
    json_loads w (m_text json_match) = Inr parsed \<and> gemini_accepted parsed"
  then have g: "extract_with_gemini w file_data mime_type = parsed"
    by (elim conjE) (rule gemini_verbatim)
  then have o: "orchestrate tesseract w file_data mime_type =
      \<lparr>extracted_data = parsed, extraction_method = ''gemini'', gemini_flag = True\<rparr>"
    using a orchestrate_accepted [of w file_data mime_type tesseract] by simp
  show "extracted_data (orchestrate tesseract w file_data mime_type) = parsed"
    by (simp add: o)
  show "dict_keys (extracted_data (orchestrate tesseract w file_data mime_type)) = dict_keys parsed"
    by (simp add: o)
qed

theorem orchestrator_returns_vision_mapping_verbatim_witness:
  \<open>gemini_available example_world \<and>
   gemini_accepted (extract_with_gemini example_world ''PNG {"all_text": "hi", "extra": 1}'' ''image/png'') \<and>
   extracted_data (orchestrate (extract_with_tesseract example_world) example_world
       ''PNG {"all_text": "hi", "extra": 1}'' ''image/png'') =
     [(''all_text'', JStr ''hi''), (''extra'', JInt 1)]\<close>
proof -
  have g: "gemini_available example_world"
    by (simp add: example_world_def)
  have a: \<open>extract_with_gemini example_world ''PNG {"all_text": "hi", "extra": 1}'' ''image/png'' =
      [(''all_text'', JStr ''hi''), (''extra'', JInt 1)]\<close>
    by code_simp
  have a': \<open>gemini_accepted (extract_with_gemini example_world ''PNG {"all_text": "hi", "extra": 1}'' ''image/png'')\<close>
    unfolding a by (simp add: gemini_accepted_def dict_get_def)
  show ?thesis
    using orchestrator_returns_vision_mapping_verbatim [of example_world
        \<open>''PNG {"all_text": "hi", "extra": 1}''\<close> "''image/png''" "extract_with_tesseract example_world"]
      g a a'
    by simp
qed

text \<open>The claim as stated fails: for the reply \<^verbatim>\<open>{"all_text": "hi", "extra": 1}\<close> the vision
  result is accepted, and the record returned has the unknown key \<^verbatim>\<open>extra\<close> and lacks
  \<^verbatim>\<open>amount\<close>.\<close>

theorem orchestrator_keeps_unknown_keys:
  \<open>extraction_method (orchestrate (extract_with_tesseract example_world) example_world
       ''PNG {"all_text": "hi", "extra": 1}'' ''image/png'') = ''gemini'' \<and>
   dict_keys (extracted_data (orchestrate (extract_with_tesseract example_world) example_world
       ''PNG {"all_text": "hi", "extra": 1}'' ''image/png'')) = {''all_text'', ''extra''} \<and>
   ''extra'' \<notin> fixed_keys \<and> ''amount'' \<in> fixed_keys\<close>
proof -
  have \<open>orchestrate (extract_with_tesseract example_world) example_world
       ''PNG {"all_text": "hi", "extra": 1}'' ''image/png'' =
     \<lparr>extracted_data = [(''all_text'', JStr ''hi''), (''extra'', JInt 1)],
      extraction_method = ''gemini'', gemini_flag = True\<rparr>\<close>
    by code_simp
  then show ?thesis
    by (simp add: dict_keys_def fixed_keys_def)
qed

section \<open>Properties of the Field Parser: lines\<close>

lemma starts_with_iff: "starts_with p s \<longleftrightarrow> (\<exists>post. s = p @ post)"
  by (induction p s rule: starts_with.induct) auto

lemma contains_iff: "contains sub s \<longleftrightarrow> (\<exists>pre post. s = pre @ sub @ post)"
proof (induction s)
  case Nil
  then show ?case by auto
next
  case (Cons c cs)
  show ?case
  proof
    assume "contains sub (c # cs)"
    then consider "starts_with sub (c # cs)" | "contains sub cs" by auto
    then show "\<exists>pre post. c # cs = pre @ sub @ post"
    proof cases
      case 1
      then obtain post where "c # cs = sub @ post" using starts_with_iff by blast
      then have "c # cs = [] @ sub @ post" by simp
      then show ?thesis by blast
    next
      case 2
      then obtain pre post where "cs = pre @ sub @ post" using Cons.IH by blast
      then have "c # cs = (c # pre) @ sub @ post" by simp
      then show ?thesis by blast
    qed
  next
    assume "\<exists>pre post. c # cs = pre @ sub @ post"
    then obtain pre post where e: "c # cs = pre @ sub @ post" by blast
    show "contains sub (c # cs)"
    proof (cases pre)
      case Nil
      then have "starts_with sub (c # cs)" using e starts_with_iff by auto
      then show ?thesis by simp
    next
      case (Cons a pre')
      then have "cs = pre' @ sub @ post" using e by simp
      then have "contains sub cs" using Cons.IH by blast
      then show ?thesis by simp
    qed
  qed
qed

lemma contains_part: "contains (a @ b) s \<Longrightarrow> contains b s"
proof -
  assume "contains (a @ b) s"
  then obtain pre post where "s = pre @ (a @ b) @ post" using contains_iff by blast
  then have "s = (pre @ a) @ b @ post" by simp
  then show ?thesis using contains_iff by blast
qed

lemma unsuccessful_is_successful:
  "contains ''unsuccessful'' s \<Longrightarrow> contains ''successful'' s"
  using contains_part [of "''un''" "''successful''" s] by simp

lemma map_of_update: "map_of (AList.update k v d) k' = (if k' = k then Some v else map_of d k')"
  by (simp add: update_conv')

lemma status_sender_step [simp]:
  "map_of (sender_step l rest d) ''status'' = map_of d ''status''"
  by (simp add: sender_step_def Let_def map_of_update split: list.splits)

lemma status_receiver_step [simp]:
  "map_of (receiver_step l rest d) ''status'' = map_of d ''status''"
  by (simp add: receiver_step_def Let_def map_of_update split: list.splits)

lemma status_line_step:
  "map_of (line_step line rest d) ''status'' =
     (if contains ''successful'' (py_lower line) then Some (JStr ''Successful'')
      else if contains ''failed'' (py_lower line) then Some (JStr ''Failed'')
      else if contains ''pending'' (py_lower line) then Some (JStr ''Pending'')
      else map_of d ''status'')"
  by (simp add: line_step_def Let_def status_step_def map_of_update)

lemma scan_lines_append: "\<exists>d'. scan_lines (pre @ ls) d = scan_lines ls d'"
  by (induction pre arbitrary: d) auto

lemma status_kept:
  "map_of d ''status'' = Some (JStr ''Successful'') \<Longrightarrow>
   \<forall>l \<in> set ls. \<not> contains ''failed'' (py_lower l) \<and> \<not> contains ''pending'' (py_lower l) \<Longrightarrow>
   map_of (scan_lines ls d) ''status'' = Some (JStr ''Successful'')"
proof (induction ls arbitrary: d)
  case Nil
  then show ?case by simp
next
  case (Cons l ls)
  have "map_of (line_step l ls d) ''status'' = Some (JStr ''Successful'')"
    using Cons.prems by (simp add: status_line_step)
  then show ?case using Cons.IH Cons.prems by simp
qed

lemma status_detect_method [simp]:
  "map_of (detect_method ms text d) ''status'' = map_of d ''status''"
  by (induction ms) (simp_all add: map_of_update split: option.splits)

text \<open>
  Claim C8. If some line of the text contains \<^verbatim>\<open>unsuccessful\<close> (in any case) and no later
  line contains \<^verbatim>\<open>failed\<close> or \<^verbatim>\<open>pending\<close>, the Field Parser sets \<^verbatim>\<open>status\<close> to
  \<^verbatim>\<open>Successful\<close>: the test is \<^verbatim>\<open>'successful' in line_lower\<close>, which the word
  \<^verbatim>\<open>unsuccessful\<close> satisfies.
\<close>

theorem unsuccessful_line_gives_status_successful:
  assumes "split_nl text = before @ line # after"
    and "contains ''unsuccessful'' (py_lower line)"
    and "\<forall>l \<in> set after. \<not> contains ''failed'' (py_lower l) \<and> \<not> contains ''pending'' (py_lower l)"
  shows "dict_get (parse_text_manually text) ''status'' = JStr ''Successful''"
proof -
  define d0 where "d0 = AList.update ''phone_numbers'' (JArr (map JStr (collect_phones text)))
      (apply_patterns patterns text (initial_data text))"
  obtain d1 where d1: "scan_lines (before @ line # after) d0 = scan_lines (line # after) d1"
    using scan_lines_append by blast
  have "map_of (line_step line after d1) ''status'' = Some (JStr ''Successful'')"
    using assms(2) by (simp add: status_line_step unsuccessful_is_successful)
  then have "map_of (scan_lines (line # after) d1) ''status'' = Some (JStr ''Successful'')"
    using status_kept [OF _ assms(3)] by simp
  moreover have "parse_text_manually text =
      detect_method methods text (scan_lines (before @ line # after) d0)"
    by (simp add: parse_text_manually_def Let_def assms(1) d0_def)
  ultimately have "map_of (parse_text_manually text) ''status'' = Some (JStr ''Successful'')"
    by (simp add: d1)
  then show ?thesis by (simp add: dict_get_def)
qed

theorem unsuccessful_line_gives_status_successful_witness:
  "split_nl (''Payment Unsuccessful'' @ [CHR 0x0A] @ ''Try again later'') =
     [] @ ''Payment Unsuccessful'' # [''Try again later''] \<and>
   dict_get (parse_text_manually (''Payment Unsuccessful'' @ [CHR 0x0A] @ ''Try again later''))
     ''status'' = JStr ''Successful''"
proof -
  have a: "split_nl (''Payment Unsuccessful'' @ [CHR 0x0A] @ ''Try again later'') =
      [] @ ''Payment Unsuccessful'' # [''Try again later'']"
    by code_simp
  have b: "contains ''unsuccessful'' (py_lower ''Payment Unsuccessful'')"
    by code_simp
  have c: "\<forall>l \<in> set [''Try again later''].
      \<not> contains ''failed'' (py_lower l) \<and> \<not> contains ''pending'' (py_lower l)"
    by code_simp
  from unsuccessful_line_gives_status_successful [OF a b c] a show ?thesis by blast
qed

section \<open>Properties of the regular expressions\<close>

text \<open>Facts that evaluate characters, character sets and patterns on literals.\<close>

named_theorems ev

lemmas [ev] = tid_patterns_def amount_patterns_def date_patterns_def fee_patterns_def
  phone_patterns_def lit_def lower_char_def upper_char_def is_ascii_upper_def is_ascii_lower_def
  is_latin_upper_def is_latin_lower_def in_range_def ch_code_def char_of_def is_digit_def
  is_space_def is_word_def alnum_def colon_space_def digit_comma_def alnum_group_def
  number_group_def rs_marker_def long_date_def numeric_date_def long_digit_run_def counts_def
  run_len_def match_at_def Let_def py_lower_def py_strip_def bit_Suc_0_iff

lemma ch_code_lt: "ch_code c < 256"
proof -
  have "ch_code c = ch_code c mod 256" by (simp add: ch_code_def)
  then show ?thesis by (metis mod_less_divisor zero_less_numeral)
qed

lemma ch_code_eq_iff: "ch_code a = ch_code b \<longleftrightarrow> a = b"
  by (simp add: ch_code_def)

lemma ch_code_lower_char:
  "ch_code (lower_char c) =
     (if is_ascii_upper c \<or> is_latin_upper c then ch_code c + 32 else ch_code c)"
proof -
  have "(ch_code c + 32) mod 256 = ch_code c + 32" if "is_ascii_upper c \<or> is_latin_upper c"
    using that by (auto simp: is_ascii_upper_def is_latin_upper_def in_range_def Let_def ch_code_def)
  then show ?thesis
    by (auto simp: lower_char_def ch_code_def)
qed

text \<open>Under \<^verbatim>\<open>re.IGNORECASE\<close> a lower-case ASCII letter of a pattern matches itself and
  its upper-case form only.\<close>

lemma ci_letter:
  assumes "is_ascii_lower l" and "cs_mem True (CChar l) c"
  shows "ch_code c = ch_code l \<or> ch_code c + 32 = ch_code l"
proof -
  have "ch_code (lower_char c) = ch_code (lower_char l)"
    using assms(2) by simp
  then show ?thesis
    using assms(1) ch_code_lt [of c]
    by (auto simp: ch_code_lower_char is_ascii_upper_def is_ascii_lower_def is_latin_upper_def
        in_range_def Let_def split: if_splits) (simp_all add: ch_code_def)
qed

lemma code_literals:
  "ch_code CHR ''A'' = 65" "ch_code CHR ''Z'' = 90" "ch_code CHR ''a'' = 97" "ch_code CHR ''z'' = 122"
  "ch_code CHR ''0'' = 48" "ch_code CHR ''9'' = 57" "ch_code CHR '':'' = 58" "ch_code CHR '','' = 44"
  "ch_code CHR ''.'' = 46" "ch_code CHR ''+'' = 43"
  by (simp_all add: ch_code_def)

lemma letter_code:
  assumes "is_ascii_lower l" and "cs_mem True (CChar l) c"
  shows "(65 \<le> ch_code c \<and> ch_code c \<le> 90) \<or> (97 \<le> ch_code c \<and> ch_code c \<le> 122)"
  using ci_letter [OF assms] assms(1)
  by (simp add: is_ascii_lower_def in_range_def code_literals) arith

lemma alnum_by_code:
  "(65 \<le> ch_code c \<and> ch_code c \<le> 90) \<or> (97 \<le> ch_code c \<and> ch_code c \<le> 122) \<or>
   (48 \<le> ch_code c \<and> ch_code c \<le> 57) \<Longrightarrow> cs_mem ic alnum c"
  by (simp add: alnum_def in_range_def code_literals) blast

lemma colon_space_by_code:
  assumes "cs_mem ic colon_space c"
  shows "ch_code c = 58 \<or> ch_code c \<le> 32 \<or> ch_code c = 133 \<or> ch_code c = 160"
proof -
  have "c = CHR '':'' \<or> lower_char c = lower_char CHR '':'' \<or> is_space c"
    using assms by (auto simp: colon_space_def split: if_splits)
  moreover have "lower_char CHR '':'' = CHR '':''"
    by (simp add: lower_char_def is_ascii_upper_def is_latin_upper_def in_range_def ch_code_def)
  moreover have "ch_code c = 58" if "lower_char c = CHR '':''"
  proof -
    have "ch_code (lower_char c) = 58" using that by (simp add: code_literals)
    then show ?thesis
      by (simp add: ch_code_lower_char is_ascii_upper_def is_latin_upper_def in_range_def
          code_literals Let_def split: if_splits)
  qed
  moreover have "ch_code c \<le> 32 \<or> ch_code c = 133 \<or> ch_code c = 160" if "is_space c"
    using that by (auto simp: is_space_def Let_def)
  ultimately show ?thesis by (auto simp: code_literals)
qed

lemma ci_letter_alnum:
  assumes "is_ascii_lower l" and "cs_mem True (CChar l) c"
  shows "cs_mem ic alnum c" and "\<not> cs_mem ic colon_space c"
proof -
  note n = letter_code [OF assms]
  show "cs_mem ic alnum c"
    using n by (intro alnum_by_code) blast
  show "\<not> cs_mem ic colon_space c"
    using n colon_space_by_code [of ic c] by arith
qed

lemma rmatch_Atom_Some:
  "rmatch ic (Atom cs # r) s g0 g = Some x \<longleftrightarrow>
     (\<exists>c s'. s = c # s' \<and> cs_mem ic cs c \<and> rmatch ic r s' g0 g = Some x)"
  by (cases s) auto

lemma first_some_Some:
  "first_some xs = Some y \<Longrightarrow> Some y \<in> set xs"
  by (induction xs) (auto split: option.splits)

lemma first_some_None: "first_some xs = None \<longleftrightarrow> (\<forall>x \<in> set xs. x = None)"
  by (induction xs) (auto split: option.splits)

lemma counts_greedy:
  "lo \<le> (case hi of None \<Rightarrow> n | Some h \<Rightarrow> min h n) \<Longrightarrow>
   counts lo hi n = (case hi of None \<Rightarrow> n | Some h \<Rightarrow> min h n) # rev [lo ..< (case hi of None \<Rightarrow> n | Some h \<Rightarrow> min h n)]"
  by (simp add: counts_def)

text \<open>A greedy quantifier whose longest repetition lets the rest of the pattern match takes
  that repetition.\<close>

lemma rep_greedy:
  assumes "mx = (case hi of None \<Rightarrow> run_len ic cs s | Some h \<Rightarrow> min h (run_len ic cs s))"
    and "lo \<le> mx" and "rmatch ic r (drop mx s) g0 g = Some x"
  shows "rmatch ic (Rep cs lo hi # r) s g0 g = Some x"
  using assms counts_greedy [where lo = lo and hi = hi and n = "run_len ic cs s"] by simp

lemma run_len_Cons:
  "run_len ic cs (c # s) = (if cs_mem ic cs c then Suc (run_len ic cs s) else 0)"
  by (simp add: run_len_def)

lemma run_len_Nil [simp]: "run_len ic cs [] = 0"
  by (simp add: run_len_def)

lemma alnum_group_matches:
  assumes "cs_mem ic alnum c"
  shows "\<exists>x. rmatch ic alnum_group (c # s) g0 g = Some x"
proof -
  have "1 \<le> run_len ic alnum (c # s)"
    using assms by (simp add: run_len_Cons)
  then have "rmatch ic (Rep alnum 1 None # [GClose]) (c # s) (c # s) g =
      Some (drop (run_len ic alnum (c # s)) (c # s),
            take (length (c # s) - length (drop (run_len ic alnum (c # s)) (c # s))) (c # s))"
    by (intro rep_greedy) simp_all
  then show ?thesis by (simp add: alnum_group_def)
qed

text \<open>Wherever the fourth transaction-id pattern (\<^verbatim>\<open>Reference\<close>) matches, the third
  (\<^verbatim>\<open>Ref\<close>) matches too.\<close>

lemma reference_implies_ref:
  assumes "match_at True (tid_patterns ! 3) s = Some m"
  shows "\<exists>m'. match_at True (tid_patterns ! 2) s = Some m'"
proof -
  from assms obtain x where "rmatch True (lit ''Reference'' @ [Rep colon_space 0 None] @ alnum_group) s s [] = Some x"
    by (auto simp: match_at_def tid_patterns_def split: option.splits)
  then obtain c1 c2 c3 c4 s' where s: "s = c1 # c2 # c3 # c4 # s'"
    and c: "cs_mem True (CChar CHR ''R'') c1" "cs_mem True (CChar CHR ''e'') c2"
      "cs_mem True (CChar CHR ''f'') c3" "cs_mem True (CChar CHR ''e'') c4"
    by (auto simp: lit_def rmatch_Atom_Some simp del: cs_mem.simps rmatch.simps(2))
  have e: "is_ascii_lower CHR ''e''"
    by (simp add: is_ascii_lower_def in_range_def ch_code_def)
  have a: "cs_mem True alnum c4" and b: "\<not> cs_mem True colon_space c4"
    using ci_letter_alnum [OF e c(4)] by simp_all
  obtain x' where x': "rmatch True alnum_group (c4 # s') s [] = Some x'"
    using alnum_group_matches [OF a] by blast
  have "rmatch True (Rep colon_space 0 None # alnum_group) (c4 # s') s [] = Some x'"
    by (rule rep_greedy [where mx = 0]) (simp_all add: run_len_Cons b x')
  then have "rmatch True (lit ''Ref'' @ [Rep colon_space 0 None] @ alnum_group) s s [] = Some x'"
    using c by (simp add: lit_def s del: cs_mem.simps)
  then show ?thesis
    by (simp add: match_at_def tid_patterns_def split: prod.splits)
qed

lemma re_search_here: "match_at ic re s = Some m \<Longrightarrow> re_search ic re s = Some m"
  by (cases s) simp_all

lemma re_search_None_iff:
  "re_search ic re s = None \<longleftrightarrow> (\<forall>i \<le> length s. match_at ic re (drop i s) = None)"
proof (induction s)
  case Nil
  then show ?case by simp
next
  case (Cons c s)
  show ?case
  proof
    assume a: "re_search ic re (c # s) = None"
    then have h: "match_at ic re (c # s) = None" and t: "re_search ic re s = None"
      by (auto split: option.splits)
    show "\<forall>i \<le> length (c # s). match_at ic re (drop i (c # s)) = None"
    proof (intro allI impI)
      fix i assume "i \<le> length (c # s)"
      then show "match_at ic re (drop i (c # s)) = None"
        using h t Cons.IH by (cases i) auto
    qed
  next
    assume a: "\<forall>i \<le> length (c # s). match_at ic re (drop i (c # s)) = None"
    then have "match_at ic re (drop 0 (c # s)) = None" by blast
    moreover have "\<forall>i \<le> length s. match_at ic re (drop i s) = None"
    proof (intro allI impI)
      fix i assume "i \<le> length s"
      then show "match_at ic re (drop i s) = None" using a [rule_format, of "Suc i"] by simp
    qed
    ultimately show "re_search ic re (c # s) = None"
      using Cons.IH by simp
  qed
qed

lemma re_search_skip:
  "\<forall>i < length pre. match_at ic re (drop i (pre @ s)) = None \<Longrightarrow>
   re_search ic re (pre @ s) = re_search ic re s"
proof (induction pre)
  case Nil
  then show ?case by simp
next
  case (Cons c pre)
  have h: "match_at ic re (c # pre @ s) = None"
    using Cons.prems [rule_format, of 0] by simp
  have "\<forall>i < length pre. match_at ic re (drop i (pre @ s)) = None"
  proof (intro allI impI)
    fix i assume "i < length pre"
    then show "match_at ic re (drop i (pre @ s)) = None"
      using Cons.prems [rule_format, of "Suc i"] by simp
  qed
  then show ?case using Cons.IH h by simp
qed

text \<open>The fourth transaction-id pattern never decides: if the third finds nothing, the
  fourth finds nothing.\<close>

lemma reference_never_fires:
  assumes "re_search True (tid_patterns ! 2) text = None"
  shows "re_search True (tid_patterns ! 3) text = None"
  unfolding re_search_None_iff
proof (intro allI impI)
  fix i assume i: "i \<le> length text"
  have n: "match_at True (tid_patterns ! 2) (drop i text) = None"
    using assms i by (simp add: re_search_None_iff)
  show "match_at True (tid_patterns ! 3) (drop i text) = None"
  proof (cases "match_at True (tid_patterns ! 3) (drop i text)")
    case None
    then show ?thesis .
  next
    case (Some m)
    from reference_implies_ref [OF Some] n show ?thesis by simp
  qed
qed

section \<open>Properties of the Field Parser: patterns\<close>

lemma scan_lines_other_key:
  "k \<noteq> ''sender'' \<Longrightarrow> k \<noteq> ''receiver'' \<Longrightarrow> k \<noteq> ''status'' \<Longrightarrow>
   map_of (scan_lines ls d) k = map_of d k"
proof (induction ls arbitrary: d)
  case Nil
  then show ?case by simp
next
  case (Cons l ls)
  have "map_of (line_step l ls d) k = map_of d k"
    using Cons.prems
    by (simp add: line_step_def Let_def sender_step_def receiver_step_def status_step_def
        map_of_update split: list.splits)
  then show ?case using Cons by simp
qed

lemma detect_method_other_key:
  "k \<noteq> ''payment_method'' \<Longrightarrow> map_of (detect_method ms text d) k = map_of d k"
  by (induction ms) (simp_all add: map_of_update split: option.splits)

lemma pattern_step_cong:
  "map_of d k = map_of d' k \<Longrightarrow>
   map_of (case first_match ps text of
             None \<Rightarrow> d
           | Some g \<Rightarrow>
               if field \<in> set [''amount'', ''fee'']
               then AList.update field (JStr (''Rs. '' @ g)) d
               else AList.update field (JStr g) d) k =
   map_of (case first_match ps text of
             None \<Rightarrow> d'
           | Some g \<Rightarrow>
               if field \<in> set [''amount'', ''fee'']
               then AList.update field (JStr (''Rs. '' @ g)) d'
               else AList.update field (JStr g) d') k"
  by (cases "first_match ps text") (auto simp add: map_of_update)

lemma apply_patterns_cong:
  "map_of d k = map_of d' k \<Longrightarrow>
   map_of (apply_patterns pats text d) k = map_of (apply_patterns pats text d') k"
proof (induction pats arbitrary: d d')
  case Nil
  then show ?case by simp
next
  case (Cons p pats)
  obtain field ps where p: "p = (field, ps)" by (cases p)
  show ?case
    unfolding p apply_patterns.simps
    using Cons.IH [OF pattern_step_cong [OF Cons.prems]] .
qed

lemma apply_patterns_skip:
  assumes "k \<noteq> field"
  shows "map_of (apply_patterns ((field, ps) # pats) text d) k = map_of (apply_patterns pats text d) k"
proof -
  have "map_of (case first_match ps text of
             None \<Rightarrow> d
           | Some g \<Rightarrow>
               if field \<in> set [''amount'', ''fee'']
               then AList.update field (JStr (''Rs. '' @ g)) d
               else AList.update field (JStr g) d) k = map_of d k"
    using assms by (cases "first_match ps text") (auto simp add: map_of_update)
  from apply_patterns_cong [OF this] show ?thesis by simp
qed

lemma apply_patterns_untouched:
  "k \<notin> fst ` set pats \<Longrightarrow> map_of (apply_patterns pats text d) k = map_of d k"
proof (induction pats arbitrary: d)
  case Nil
  then show ?case by simp
next
  case (Cons p pats)
  obtain field ps where p: "p = (field, ps)" by (cases p)
  show ?case using Cons by (simp add: p apply_patterns_skip del: apply_patterns.simps)
qed

lemma apply_patterns_field:
  "field \<notin> fst ` set pats \<Longrightarrow>
   map_of (apply_patterns ((field, ps) # pats) text d) field =
     (case first_match ps text of
        None \<Rightarrow> map_of d field
      | Some g \<Rightarrow> Some (JStr (if field \<in> set [''amount'', ''fee''] then ''Rs. '' @ g else g)))"
  by (simp add: apply_patterns_untouched map_of_update split: option.splits)

lemma parse_key_after_patterns:
  "k \<noteq> ''sender'' \<Longrightarrow> k \<noteq> ''receiver'' \<Longrightarrow> k \<noteq> ''status'' \<Longrightarrow> k \<noteq> ''payment_method'' \<Longrightarrow>
   k \<noteq> ''phone_numbers'' \<Longrightarrow>
   map_of (parse_text_manually text) k = map_of (apply_patterns patterns text (initial_data text)) k"
  by (simp add: parse_text_manually_def Let_def scan_lines_other_key detect_method_other_key
      map_of_update)

lemma parse_transaction_id:
  "dict_get (parse_text_manually text) ''transaction_id'' =
     (case first_match tid_patterns text of None \<Rightarrow> JNull | Some g \<Rightarrow> JStr g)"
proof -
  have "map_of (apply_patterns patterns text (initial_data text)) ''transaction_id'' =
      (case first_match tid_patterns text of
         None \<Rightarrow> Some JNull
       | Some g \<Rightarrow> Some (JStr g))"
    unfolding patterns_def
    by (subst apply_patterns_field) (simp_all add: initial_data_def split: option.splits)
  then show ?thesis
    by (simp add: dict_get_def parse_key_after_patterns split: option.splits)
qed

lemma parse_amount:
  "dict_get (parse_text_manually text) ''amount'' =
     (case first_match amount_patterns text of None \<Rightarrow> JNull | Some g \<Rightarrow> JStr (''Rs. '' @ g))"
proof -
  have "map_of (apply_patterns patterns text (initial_data text)) ''amount'' =
      (case first_match amount_patterns text of
         None \<Rightarrow> Some JNull
       | Some g \<Rightarrow> Some (JStr (''Rs. '' @ g)))"
    unfolding patterns_def
    by (subst apply_patterns_skip, simp, subst apply_patterns_field)
       (simp_all add: initial_data_def split: option.splits)
  then show ?thesis
    by (simp add: dict_get_def parse_key_after_patterns split: option.splits)
qed

lemma parse_phone_numbers:
  "dict_get (parse_text_manually text) ''phone_numbers'' = JArr (map JStr (collect_phones text))"
  by (simp add: parse_text_manually_def Let_def dict_get_def scan_lines_other_key
      detect_method_other_key map_of_update)

lemma tid_patterns_list:
  "tid_patterns = [tid_patterns ! 0, tid_patterns ! 1, tid_patterns ! 2, tid_patterns ! 3]"
  by (simp add: tid_patterns_def)

lemma ref_matches_reference_word:
  "match_at True (tid_patterns ! 2) (''Reference: ABC123'' @ post) =
     Some \<lparr>m_text = ''Reference'', m_group1 = ''erence'', m_rest = '': ABC123'' @ post\<rparr>"
  by (simp add: ev)

lemma first_match_third:
  assumes "re_search True (tid_patterns ! 0) text = None" "re_search True (tid_patterns ! 1) text = None"
    "re_search True (tid_patterns ! 2) text = Some m"
  shows "first_match tid_patterns text = Some (m_group1 m)"
  by (subst tid_patterns_list) (simp add: assms del: One_nat_def)

text \<open>
  Claim C9, as amended. For a text containing \<^verbatim>\<open>Reference: ABC123\<close> in which neither the
  \<^verbatim>\<open>TID\<close> nor the \<^verbatim>\<open>Transaction ID\<close> pattern matches, and the \<^verbatim>\<open>Ref\<close> pattern matches
  nowhere before that occurrence, the Field Parser sets \<^verbatim>\<open>transaction_id\<close> to
  \<^verbatim>\<open>erence\<close>: the third pattern's \<^verbatim>\<open>Ref\<close> matches inside the word and its capture takes
  the rest of the word. In every text, when the third pattern finds nothing the fourth
  (\<^verbatim>\<open>Reference\<close>) finds nothing either, so the fourth never decides.
\<close>

theorem ref_pattern_captures_reference_word:
  assumes "text = pre @ ''Reference: ABC123'' @ post"
    and "re_search True (tid_patterns ! 0) text = None"
    and "re_search True (tid_patterns ! 1) text = None"
    and "\<forall>i < length pre. match_at True (tid_patterns ! 2) (drop i text) = None"
  shows "dict_get (parse_text_manually text) ''transaction_id'' = JStr ''erence'' \<and>
         (\<forall>t. re_search True (tid_patterns ! 2) t = None \<longrightarrow>
              re_search True (tid_patterns ! 3) t = None)"
proof -
  have "re_search True (tid_patterns ! 2) text =
      re_search True (tid_patterns ! 2) (''Reference: ABC123'' @ post)"
    unfolding assms(1) using assms(4) [unfolded assms(1)] by (rule re_search_skip)
  also have "\<dots> = Some \<lparr>m_text = ''Reference'', m_group1 = ''erence'', m_rest = '': ABC123'' @ post\<rparr>"
    by (rule re_search_here) (rule ref_matches_reference_word)
  finally have "first_match tid_patterns text = Some ''erence''"
    using first_match_third [OF assms(2,3)] by simp
  then show ?thesis
    by (simp add: parse_transaction_id reference_never_fires)
qed

theorem ref_pattern_captures_reference_word_witness:
  "re_search True (tid_patterns ! 0) (''No '' @ ''Reference: ABC123'' @ '' ok'') = None \<and>
   re_search True (tid_patterns ! 1) (''No '' @ ''Reference: ABC123'' @ '' ok'') = None \<and>
   dict_get (parse_text_manually (''No '' @ ''Reference: ABC123'' @ '' ok'')) ''transaction_id'' =
     JStr ''erence''"
proof -
  have a: "re_search True (tid_patterns ! 0) (''No '' @ ''Reference: ABC123'' @ '' ok'') = None"
    by (simp add: ev)
  have b: "re_search True (tid_patterns ! 1) (''No '' @ ''Reference: ABC123'' @ '' ok'') = None"
    by (simp add: ev)
  have c: "\<forall>i < length ''No ''. match_at True (tid_patterns ! 2)
      (drop i (''No '' @ ''Reference: ABC123'' @ '' ok'')) = None"
    by (simp add: ev All_less_Suc numeral_3_eq_3)
  from ref_pattern_captures_reference_word [OF refl a b c] a b show ?thesis by blast
qed

text \<open>The claim as stated fails: in \<^verbatim>\<open>Preferred Reference: ABC123\<close> neither \<^verbatim>\<open>TID\<close> nor
  \<^verbatim>\<open>Transaction ID\<close> matches, and the \<^verbatim>\<open>Ref\<close> pattern matches inside \<^verbatim>\<open>Preferred\<close>
  first.\<close>

theorem ref_pattern_matches_earlier_word:
  "re_search True (tid_patterns ! 0) ''Preferred Reference: ABC123'' = None \<and>
   re_search True (tid_patterns ! 1) ''Preferred Reference: ABC123'' = None \<and>
   contains ''Reference: ABC123'' ''Preferred Reference: ABC123'' \<and>
   dict_get (parse_text_manually ''Preferred Reference: ABC123'') ''transaction_id'' = JStr ''erred''"
proof -
  have "first_match tid_patterns ''Preferred Reference: ABC123'' = Some ''erred''"
    by (simp add: ev)
  moreover have "re_search True (tid_patterns ! 0) ''Preferred Reference: ABC123'' = None"
    by (simp add: ev)
  moreover have "re_search True (tid_patterns ! 1) ''Preferred Reference: ABC123'' = None"
    by (simp add: ev)
  ultimately show ?thesis
    by (simp add: parse_transaction_id)
qed

text \<open>The title case of every method name is an 8-bit string.\<close>

lemma methods_titles:
  "map py_title methods =
     [Some ''Jazzcash'', Some ''Easypaisa'', Some ''Ubl'', Some ''Hbl'', Some ''Bank'', Some ''Wallet'']"
  by (simp add: methods_def py_title_def title_char_def is_cased_def ev)

section \<open>Properties of the Field Parser: the receiver\<close>














section \<open>Properties of the Field Parser: the amount\<close>

lemma amount_patterns_list:
  "amount_patterns = [amount_patterns ! 0, amount_patterns ! 1, amount_patterns ! 2]"
  by (simp add: amount_patterns_def)

lemma first_match_first:
  assumes "re_search True (amount_patterns ! 0) text = Some m"
  shows "first_match amount_patterns text = Some (m_group1 m)"
  by (subst amount_patterns_list) (simp add: assms del: One_nat_def)

lemma no_digit_run:
  assumes "post = [] \<or> \<not> is_digit (hd post)"
  shows "takeWhile (cs_mem True CDigit) post = []"
  using assms by (cases post) simp_all

lemma rs_matches_amount:
  assumes "post = [] \<or> \<not> is_digit (hd post)"
  shows "match_at True (amount_patterns ! 0) (''Rs. 1,234.50'' @ post) =
     Some \<lparr>m_text = ''Rs. 1,234.50'', m_group1 = ''1,234.50'', m_rest = post\<rparr>"
  using no_digit_run [OF assms] by (simp add: ev)

text \<open>
  Claim C5, as amended. For any input text containing \<^verbatim>\<open>Rs. 1,234.50\<close>, if the \<^verbatim>\<open>Rs\<close>
  pattern matches nowhere before that occurrence and the occurrence is not directly followed
  by a digit, the Field Parser yields the amount \<^verbatim>\<open>Rs. 1,234.50\<close>. For every text, the
  amount is absent or is \<^verbatim>\<open>Rs. \<close> followed by the text captured by the first amount pattern
  that matches, whichever currency marker that is.
\<close>

theorem amount_of_first_rs_occurrence:
  assumes "text = pre @ ''Rs. 1,234.50'' @ post"
    and "\<forall>i < length pre. match_at True (amount_patterns ! 0) (drop i text) = None"
    and "post = [] \<or> \<not> is_digit (hd post)"
  shows "dict_get (parse_text_manually text) ''amount'' = JStr ''Rs. 1,234.50'' \<and>
         (\<forall>t. dict_get (parse_text_manually t) ''amount'' =
            (case first_match amount_patterns t of
               None \<Rightarrow> JNull
             | Some g \<Rightarrow> JStr (''Rs. '' @ g)))"
proof -
  have "re_search True (amount_patterns ! 0) text =
      re_search True (amount_patterns ! 0) (''Rs. 1,234.50'' @ post)"
    unfolding assms(1) using assms(2) [unfolded assms(1)] by (rule re_search_skip)
  also have "\<dots> = Some \<lparr>m_text = ''Rs. 1,234.50'', m_group1 = ''1,234.50'', m_rest = post\<rparr>"
    by (rule re_search_here) (rule rs_matches_amount [OF assms(3)])
  finally have "first_match amount_patterns text = Some ''1,234.50''"
    using first_match_first by simp
  then show ?thesis
    by (simp add: parse_amount)
qed

theorem amount_of_first_rs_occurrence_witness:
  "\<not> is_digit (hd '' sent'') \<and>
   dict_get (parse_text_manually (''A: '' @ ''Rs. 1,234.50'' @ '' sent'')) ''amount'' =
     JStr ''Rs. 1,234.50''"
proof -
  have a: "\<forall>i < length ''A: ''. match_at True (amount_patterns ! 0)
      (drop i (''A: '' @ ''Rs. 1,234.50'' @ '' sent'')) = None"
    by (simp add: ev All_less_Suc numeral_3_eq_3)
  have b: "\<not> is_digit (hd '' sent'')"
    by (simp add: ev)
  from amount_of_first_rs_occurrence [OF refl a disjI2 [OF b]] b show ?thesis by blast
qed

text \<open>The claim as stated fails when the \<^verbatim>\<open>Rs\<close> pattern matches earlier in the text: the
  first match decides.\<close>

theorem amount_taken_from_earlier_rs:
  "contains ''Rs. 1,234.50'' ''Fee Rs. 10 Total Rs. 1,234.50'' \<and>
   dict_get (parse_text_manually ''Fee Rs. 10 Total Rs. 1,234.50'') ''amount'' = JStr ''Rs. 10''"
proof -
  have "first_match amount_patterns ''Fee Rs. 10 Total Rs. 1,234.50'' = Some ''10''"
    by (simp add: ev)
  moreover have "contains ''Rs. 1,234.50'' ''Fee Rs. 10 Total Rs. 1,234.50''"
    by simp
  ultimately show ?thesis
    by (simp add: parse_amount)
qed

end
